theory Spec2Isabelle
  imports Complex_Main "HOL-Library.Multiset"
begin

section \<open>Auto-folder matcher: errors and Python list slicing\<close>

text \<open>
  The Python sources raise \<open>ValueError\<close> in three places that matter here and let
  any exception of the embedding backend escape from \<open>generate_embedding\<close>.  Each
  raise is a value of the following type; a function that can raise returns
  \<open>error + 'a\<close> with \<open>Inl\<close> for the exception.
\<close>

datatype error =
    DimensionMismatch nat nat   \<comment> \<open>\<open>ValueError("Embedding dimensions must match: ..")\<close>\<close>
  | EmptyText                   \<comment> \<open>\<open>ValueError("Text cannot be empty")\<close>\<close>
  | EmbeddingUnavailable        \<comment> \<open>any exception of \<open>_configure\<close> or \<open>genai.embed_content\<close>\<close>
  | DomainFolderRequired        \<comment> \<open>\<open>ValueError("Domain folder required for subdomain matching")\<close>\<close>

text \<open>Python's \<open>xs[:k]\<close> for an integer \<open>k\<close>: a negative \<open>k\<close> counts from the end.\<close>

definition py_take :: "int \<Rightarrow> 'a list \<Rightarrow> 'a list" where
  "py_take k xs = (if 0 \<le> k then take (nat k) xs else take (length xs - nat (- k)) xs)"

section \<open>Similarity primitive (\<open>EmbeddingService.cosine_similarity\<close>)\<close>

text \<open>Python floats are modelled as real numbers; rounding is not modelled.\<close>

definition dot_product :: "real list \<Rightarrow> real list \<Rightarrow> real" where
  "dot_product a b = sum_list (map2 (*) a b)"

definition norm_vec :: "real list \<Rightarrow> real" where
  "norm_vec a = sqrt (sum_list (map (\<lambda>x. x * x) a))"

definition cosine_similarity :: "real list \<Rightarrow> real list \<Rightarrow> error + real" where
  "cosine_similarity a b =
     (if length a \<noteq> length b then Inl (DimensionMismatch (length a) (length b))
      else let dot = dot_product a b; norm_a = norm_vec a; norm_b = norm_vec b in
        if norm_a = 0 \<or> norm_b = 0 then Inr 0
        else Inr (max 0 (min 1 (dot / (norm_a * norm_b)))))"

lemma sum_squares_nonneg: "0 \<le> sum_list (map (\<lambda>x. x * x) (a :: real list))"
  by (induction a) auto



lemma norm_vec_nonneg: "0 \<le> norm_vec a"
  by (simp add: norm_vec_def sum_squares_nonneg)








section \<open>Text primitives\<close>

text \<open>
  Python strings are modelled as \<open>string\<close> over ASCII: \<open>str.lower\<close>, \<open>str.title\<close>,
  the regular-expression classes \<open>\w\<close> and \<open>\s\<close>, \<open>str.split\<close> and \<open>str.strip\<close>
  are given on ASCII letters, digits and white space; a character outside ASCII
  counts as a caseless symbol that is neither a word character nor white space.
\<close>

definition ascii_uppercase :: string where
  "ascii_uppercase = ''ABCDEFGHIJKLMNOPQRSTUVWXYZ''"

definition ascii_lowercase :: string where
  "ascii_lowercase = ''abcdefghijklmnopqrstuvwxyz''"

definition ascii_digits :: string where
  "ascii_digits = ''0123456789''"

text \<open>The characters for which \<open>str.isspace\<close> holds: tab, line feed, vertical tab,
  form feed, carriage return, the four separators 0x1C to 0x1F, and the space.\<close>

definition ascii_whitespace :: string where
  "ascii_whitespace = [CHR 0x09, CHR 0x0A, CHR 0x0B, CHR 0x0C, CHR 0x0D,
                       CHR 0x1C, CHR 0x1D, CHR 0x1E, CHR 0x1F, CHR '' '']"

definition is_upper :: "char \<Rightarrow> bool" where
  "is_upper c \<longleftrightarrow> c \<in> set ascii_uppercase"

definition is_lower :: "char \<Rightarrow> bool" where
  "is_lower c \<longleftrightarrow> c \<in> set ascii_lowercase"

definition is_alpha :: "char \<Rightarrow> bool" where
  "is_alpha c \<longleftrightarrow> is_upper c \<or> is_lower c"

definition is_digit :: "char \<Rightarrow> bool" where
  "is_digit c \<longleftrightarrow> c \<in> set ascii_digits"

definition is_word_char :: "char \<Rightarrow> bool" where
  "is_word_char c \<longleftrightarrow> is_alpha c \<or> is_digit c \<or> c = CHR ''_''"

definition is_space :: "char \<Rightarrow> bool" where
  "is_space c \<longleftrightarrow> c \<in> set ascii_whitespace"

definition lower_char :: "char \<Rightarrow> char" where
  "lower_char c =
     (case map_of (zip ascii_uppercase ascii_lowercase) c of Some l \<Rightarrow> l | None \<Rightarrow> c)"

definition upper_char :: "char \<Rightarrow> char" where
  "upper_char c =
     (case map_of (zip ascii_lowercase ascii_uppercase) c of Some u \<Rightarrow> u | None \<Rightarrow> c)"

definition lower :: "string \<Rightarrow> string" where
  "lower s = map lower_char s"

text \<open>The maximal runs of characters satisfying \<open>p\<close>, left to right; \<open>cur\<close> is the
  run being read.\<close>

fun runs :: "(char \<Rightarrow> bool) \<Rightarrow> string \<Rightarrow> string \<Rightarrow> string list" where
  "runs p cur [] = (if cur = [] then [] else [cur])"
| "runs p cur (c # cs) =
     (if p c then runs p (cur @ [c]) cs
      else if cur = [] then runs p [] cs else cur # runs p [] cs)"

text \<open>\<open>re.findall(r'\b\w+\b', text)\<close>: the maximal runs of word characters.\<close>

definition findall_words :: "string \<Rightarrow> string list" where
  "findall_words text = runs is_word_char [] text"

text \<open>\<open>text.split()\<close>: the maximal runs of characters that are not white space.\<close>

definition split_whitespace :: "string \<Rightarrow> string list" where
  "split_whitespace text = runs (\<lambda>c. \<not> is_space c) [] text"

text \<open>\<open>needle in haystack\<close> on strings.\<close>

fun contains :: "string \<Rightarrow> string \<Rightarrow> bool" where
  "contains [] needle = (needle = [])"
| "contains (c # cs) needle =
     (take (length needle) (c # cs) = needle \<or> contains cs needle)"

section \<open>Configuration (\<open>config.py\<close>)\<close>

record threshold_config =
  domain_threshold :: real
  subdomain_threshold :: real
  leaf_threshold :: real
  leaf_confidence_threshold :: real
  leaf_recurrence_threshold :: int
  max_depth :: int
  min_keyword_overlap :: real

definition default_thresholds :: threshold_config where
  "default_thresholds =
     \<lparr> domain_threshold = 82 / 100, subdomain_threshold = 80 / 100,
       leaf_threshold = 75 / 100, leaf_confidence_threshold = 70 / 100,
       leaf_recurrence_threshold = 3, max_depth = 3,
       min_keyword_overlap = 20 / 100 \<rparr>"

section \<open>Sanity check (\<open>FolderMatcher._extract_keywords\<close>, \<open>_keyword_overlap\<close>,
  \<open>_sanity_check\<close>)\<close>

definition stop_words :: "string list" where
  "stop_words = [''the'', ''a'', ''an'', ''and'', ''or'', ''but'', ''in'', ''on'', ''at'',
                 ''to'', ''for'', ''of'', ''with'', ''by'']"

definition extract_keywords :: "string \<Rightarrow> string set" where
  "extract_keywords text =
     set (filter (\<lambda>w. length w > 2 \<and> w \<notin> set stop_words) (findall_words (lower text)))"

definition keyword_overlap :: "string \<Rightarrow> string \<Rightarrow> real" where
  "keyword_overlap text_a text_b =
     (let keywords_a = extract_keywords text_a; keywords_b = extract_keywords text_b in
      if keywords_a = {} \<or> keywords_b = {} then 0
      else let intersection = keywords_a \<inter> keywords_b; union = keywords_a \<union> keywords_b in
        if union \<noteq> {} then real (card intersection) / real (card union) else 0)"

definition false_positive_pairs :: "(string \<times> string) list" where
  "false_positive_pairs =
     [(''cooking'', ''computer''), (''health'', ''computer''),
      (''finance'', ''fitness''), (''travel'', ''technology'')]"

definition sanity_check :: "threshold_config \<Rightarrow> string \<Rightarrow> string \<Rightarrow> real \<Rightarrow> bool" where
  "sanity_check th candidate_label matched_label similarity =
     (if similarity > 95 / 100 then True
      else let overlap = keyword_overlap candidate_label matched_label in
        if similarity > 85 / 100 \<and> overlap < min_keyword_overlap th then False
        else let label_a_lower = lower candidate_label; label_b_lower = lower matched_label in
          if list_ex (\<lambda>pair.
                (contains label_a_lower (fst pair) \<and> contains label_b_lower (snd pair))
              \<or> (contains label_a_lower (snd pair) \<and> contains label_b_lower (fst pair)))
               false_positive_pairs
          then False else True)"

lemmas text_eval =
  ascii_uppercase_def ascii_lowercase_def ascii_digits_def ascii_whitespace_def
  is_upper_def is_lower_def is_alpha_def is_digit_def is_word_char_def is_space_def
  lower_char_def upper_char_def lower_def findall_words_def split_whitespace_def

lemma keyword_overlap_ratio:
  "keyword_overlap a b
     = real (card (extract_keywords a \<inter> extract_keywords b))
       / real (card (extract_keywords a \<union> extract_keywords b))"
  by (auto simp: keyword_overlap_def Let_def)

lemma keyword_overlap_no_keywords:
  "extract_keywords a = {} \<or> extract_keywords b = {} \<Longrightarrow> keyword_overlap a b = 0"
  by (auto simp: keyword_overlap_def Let_def)

lemma extract_keywords_empty_iff:
  "extract_keywords t = {}
     \<longleftrightarrow> (\<forall>w \<in> set (findall_words (lower t)). length w \<le> 2 \<or> w \<in> set stop_words)"
proof -
  have "extract_keywords t = {}
      \<longleftrightarrow> (\<forall>w \<in> set (findall_words (lower t)). \<not> (2 < length w \<and> w \<notin> set stop_words))"
    unfolding extract_keywords_def set_empty filter_empty_conv by blast
  also have "\<dots> \<longleftrightarrow> (\<forall>w \<in> set (findall_words (lower t)). length w \<le> 2 \<or> w \<in> set stop_words)"
    by (intro ball_cong refl) auto
  finally show ?thesis .
qed

text \<open>
  Claim C2.  The sanity check accepts every similarity above 0.95.  Otherwise it
  rejects when the similarity is above 0.85 and the keyword overlap is below the
  configured minimum; otherwise it rejects when the two lower-cased labels contain
  the opposite sides of one of the four fixed confusion pairs; otherwise it accepts.
  The keyword overlap is the size of the intersection of the two keyword sets
  divided by the size of their union.  The default minimum is 0.20, and under every
  positive minimum a pair with similarity 0.90 and keyword overlap zero is rejected.
\<close>

theorem sanity_check_spec:
  "(95 / 100 < sim \<longrightarrow> sanity_check th a b sim)
   \<and> (\<not> 95 / 100 < sim \<longrightarrow> 85 / 100 < sim \<longrightarrow> keyword_overlap a b < min_keyword_overlap th
        \<longrightarrow> \<not> sanity_check th a b sim)
   \<and> (\<not> 95 / 100 < sim \<longrightarrow> \<not> (85 / 100 < sim \<and> keyword_overlap a b < min_keyword_overlap th)
        \<longrightarrow> sanity_check th a b sim
             = (\<not> (\<exists>(p, q) \<in> set false_positive_pairs.
                     (contains (lower a) p \<and> contains (lower b) q)
                   \<or> (contains (lower a) q \<and> contains (lower b) p))))
   \<and> keyword_overlap a b
        = real (card (extract_keywords a \<inter> extract_keywords b))
          / real (card (extract_keywords a \<union> extract_keywords b))
   \<and> min_keyword_overlap default_thresholds = 20 / 100
   \<and> (0 < min_keyword_overlap th \<longrightarrow> keyword_overlap a b = 0
        \<longrightarrow> \<not> sanity_check th a b (90 / 100))"
proof (intro conjI impI)
  show "sanity_check th a b sim" if "95 / 100 < sim"
    using that by (simp add: sanity_check_def)
  show "\<not> sanity_check th a b sim"
    if "\<not> 95 / 100 < sim" "85 / 100 < sim" "keyword_overlap a b < min_keyword_overlap th"
    using that by (simp add: sanity_check_def Let_def)
  show "sanity_check th a b sim
      = (\<not> (\<exists>(p, q) \<in> set false_positive_pairs.
               (contains (lower a) p \<and> contains (lower b) q)
             \<or> (contains (lower a) q \<and> contains (lower b) p)))"
    if "\<not> 95 / 100 < sim"
      "\<not> (85 / 100 < sim \<and> keyword_overlap a b < min_keyword_overlap th)"
    using that by (auto simp: sanity_check_def Let_def list_ex_iff)
  show "keyword_overlap a b
      = real (card (extract_keywords a \<inter> extract_keywords b))
        / real (card (extract_keywords a \<union> extract_keywords b))"
    by (rule keyword_overlap_ratio)
  show "min_keyword_overlap default_thresholds = 20 / 100"
    by (simp add: default_thresholds_def)
  show "\<not> sanity_check th a b (90 / 100)"
    if "0 < min_keyword_overlap th" "keyword_overlap a b = 0"
    using that by (simp add: sanity_check_def Let_def)
qed

theorem sanity_check_spec_witness:
  "sanity_check default_thresholds ''Machine Learning'' ''Deep Networks'' (96 / 100)
   \<and> \<not> sanity_check default_thresholds ''Machine Learning'' ''Deep Networks'' (90 / 100)
   \<and> \<not> sanity_check default_thresholds ''Cooking'' ''Computer Science'' (82 / 100)
   \<and> sanity_check default_thresholds ''Cooking'' ''Cooking Recipes'' (90 / 100)"
proof -
  have ov: "keyword_overlap ''Machine Learning'' ''Deep Networks'' = 0"
    by code_simp
  have ov2: "keyword_overlap ''Cooking'' ''Cooking Recipes'' = 1 / 2"
    by code_simp
  have m: "min_keyword_overlap default_thresholds = 20 / 100"
    by (simp add: default_thresholds_def)
  note s1 = sanity_check_spec [of "96 / 100" default_thresholds
      "''Machine Learning''" "''Deep Networks''"]
  note s2 = sanity_check_spec [of "90 / 100" default_thresholds
      "''Machine Learning''" "''Deep Networks''"]
  note s3 = sanity_check_spec [of "82 / 100" default_thresholds
      "''Cooking''" "''Computer Science''"]
  note s4 = sanity_check_spec [of "90 / 100" default_thresholds
      "''Cooking''" "''Cooking Recipes''"]
  have c3: "\<exists>(p, q) \<in> set false_positive_pairs.
      (contains (lower ''Cooking'') p \<and> contains (lower ''Computer Science'') q)
    \<or> (contains (lower ''Cooking'') q \<and> contains (lower ''Computer Science'') p)"
    by code_simp
  have c4: "\<not> (\<exists>(p, q) \<in> set false_positive_pairs.
      (contains (lower ''Cooking'') p \<and> contains (lower ''Cooking Recipes'') q)
    \<or> (contains (lower ''Cooking'') q \<and> contains (lower ''Cooking Recipes'') p))"
    by code_simp
  have "sanity_check default_thresholds ''Machine Learning'' ''Deep Networks'' (96 / 100)"
    using s1 by simp
  moreover
  have "\<not> sanity_check default_thresholds ''Machine Learning'' ''Deep Networks'' (90 / 100)"
    using s2 ov m by simp
  moreover
  have "\<not> sanity_check default_thresholds ''Cooking'' ''Computer Science'' (82 / 100)"
    using s3 c3 by simp
  moreover
  have "sanity_check default_thresholds ''Cooking'' ''Cooking Recipes'' (90 / 100)"
    using s4 c4 ov2 m by simp
  ultimately show ?thesis by blast
qed

text \<open>
  Claim C9.  The keyword overlap is 0 as soon as one of the two texts has no word
  longer than two characters outside the stop words.  Under a positive configured
  minimum (the default is 0.20) the sanity check therefore rejects every such pair
  whose similarity is above 0.85 and at most 0.95, two identical labels included.
\<close>

theorem keyword_overlap_without_keywords:
  "((\<forall>w \<in> set (findall_words (lower a)). length w \<le> 2 \<or> w \<in> set stop_words)
      \<or> (\<forall>w \<in> set (findall_words (lower b)). length w \<le> 2 \<or> w \<in> set stop_words)
     \<longrightarrow> keyword_overlap a b = 0)
   \<and> ((\<forall>w \<in> set (findall_words (lower a)). length w \<le> 2 \<or> w \<in> set stop_words)
      \<longrightarrow> 0 < min_keyword_overlap th \<longrightarrow> 85 / 100 < sim \<longrightarrow> sim \<le> 95 / 100
      \<longrightarrow> \<not> sanity_check th a b sim \<and> \<not> sanity_check th b a sim
          \<and> \<not> sanity_check th a a sim)"
proof (intro conjI impI)
  assume "(\<forall>w \<in> set (findall_words (lower a)). length w \<le> 2 \<or> w \<in> set stop_words)
      \<or> (\<forall>w \<in> set (findall_words (lower b)). length w \<le> 2 \<or> w \<in> set stop_words)"
  then have "extract_keywords a = {} \<or> extract_keywords b = {}"
    by (simp only: extract_keywords_empty_iff)
  then show "keyword_overlap a b = 0" by (rule keyword_overlap_no_keywords)
next
  assume a: "\<forall>w \<in> set (findall_words (lower a)). length w \<le> 2 \<or> w \<in> set stop_words"
    and m: "0 < min_keyword_overlap th" and lo: "85 / 100 < sim" and hi: "sim \<le> 95 / 100"
  from a have e: "extract_keywords a = {}" by (simp only: extract_keywords_empty_iff)
  have "keyword_overlap a b = 0" "keyword_overlap b a = 0" "keyword_overlap a a = 0"
    using e by (simp_all add: keyword_overlap_no_keywords)
  with m lo hi show "\<not> sanity_check th a b sim" "\<not> sanity_check th b a sim"
    "\<not> sanity_check th a a sim"
    by (simp_all add: sanity_check_def Let_def)
qed

theorem keyword_overlap_without_keywords_witness:
  "keyword_overlap ''AI'' ''AI'' = 0
   \<and> \<not> sanity_check default_thresholds ''AI'' ''AI'' (90 / 100)
   \<and> \<not> sanity_check default_thresholds ''AI'' ''Art of the Deal'' (90 / 100)"
proof -
  have a: "\<forall>w \<in> set (findall_words (lower ''AI'')). length w \<le> 2 \<or> w \<in> set stop_words"
    by code_simp
  have m: "0 < min_keyword_overlap default_thresholds"
    by (simp add: default_thresholds_def)
  note k = keyword_overlap_without_keywords [of "''AI''" "''AI''" default_thresholds "90 / 100"]
  note k2 = keyword_overlap_without_keywords
    [of "''AI''" "''Art of the Deal''" default_thresholds "90 / 100"]
  from k a have "keyword_overlap ''AI'' ''AI'' = 0" by blast
  moreover from k a m have "\<not> sanity_check default_thresholds ''AI'' ''AI'' (90 / 100)"
    by simp
  moreover from k2 a m
  have "\<not> sanity_check default_thresholds ''AI'' ''Art of the Deal'' (90 / 100)"
    by simp
  ultimately show ?thesis by blast
qed

section \<open>Label cleaning (\<open>TaxonomyGenerator._clean_label\<close>)\<close>

text \<open>\<open>FORBIDDEN_LABEL_WORDS\<close> of \<open>config.py\<close>.\<close>


definition forbidden_label_words :: "string list" where
  "forbidden_label_words =
     [''saved'', ''stash'', ''stashed'', ''bookmark'', ''bookmarked'',
      ''like'', ''liked'', ''favorite'', ''favourited'', ''favorited'',
      ''share'', ''shared'', ''post'', ''posted'', ''tweet'', ''tweeted'',
      ''instagram'', ''tiktok'', ''youtube'', ''twitter'', ''facebook'',
      ''video'', ''image'', ''photo'', ''picture'', ''link'', ''url'',
      ''content'', ''item'', ''thing'', ''stuff'', ''misc'', ''miscellaneous'',
      ''other'', ''general'', ''various'', ''random'', ''untitled'', ''unknown'']"

text \<open>\<open>' '.join(words)\<close>.\<close>

fun join_space :: "string list \<Rightarrow> string" where
  "join_space [] = []"
| "join_space [w] = w"
| "join_space (w # v # ws) = w @ '' '' @ join_space (v # ws)"

text \<open>\<open>str.title\<close>: a letter that follows a letter is lower-cased, any other letter
  is upper-cased.\<close>

fun title_from :: "bool \<Rightarrow> string \<Rightarrow> string" where
  "title_from previous_is_cased [] = []"
| "title_from previous_is_cased (c # cs) =
     (if previous_is_cased then lower_char c else upper_char c) # title_from (is_alpha c) cs"

definition title :: "string \<Rightarrow> string" where
  "title s = title_from False s"

definition strip :: "string \<Rightarrow> string" where
  "strip s = rev (dropWhile is_space (rev (dropWhile is_space s)))"

text \<open>\<open>re.sub(r'[^\w\s&-]', '', label)\<close>.\<close>

definition remove_punctuation :: "string \<Rightarrow> string" where
  "remove_punctuation s =
     filter (\<lambda>c. is_word_char c \<or> is_space c \<or> c = CHR ''&'' \<or> c = CHR ''-'') s"

definition clean_label :: "string \<Rightarrow> int \<Rightarrow> string" where
  "clean_label label max_words =
     (if label = [] then []
      else let label1 = join_space (split_whitespace label);
               words = split_whitespace label1;
               cleaned_words = filter (\<lambda>w. lower w \<notin> set forbidden_label_words) words;
               cleaned_words = (if cleaned_words = [] then words else cleaned_words);
               cleaned_words = (if int (length cleaned_words) > max_words
                                then py_take max_words cleaned_words else cleaned_words);
               label2 = title (join_space cleaned_words);
               label3 = remove_punctuation label2
           in strip label3)"



lemma runs_nonempty: "[] \<notin> set (runs p cur s)"
  by (induction s arbitrary: cur) auto

lemma runs_all:
  "w \<in> set (runs p cur s) \<Longrightarrow> \<forall>c \<in> set cur. p c \<Longrightarrow> \<forall>c \<in> set w. p c"
proof (induction s arbitrary: cur)
  case Nil
  then show ?case by (auto split: if_splits)
next
  case (Cons a s)
  show ?case
  proof (cases "p a")
    case True
    with Cons.prems have "w \<in> set (runs p (cur @ [a]) s)" by simp
    moreover have "\<forall>c \<in> set (cur @ [a]). p c" using True Cons.prems by simp
    ultimately show ?thesis by (rule Cons.IH)
  next
    case False
    with Cons.prems have "w = cur \<or> w \<in> set (runs p [] s)" by (auto split: if_splits)
    then show ?thesis using Cons.IH [of "[]"] Cons.prems by auto
  qed
qed

lemma runs_append: "\<forall>c \<in> set w. p c \<Longrightarrow> runs p cur (w @ rest) = runs p (cur @ w) rest"
  by (induction w arbitrary: cur) auto

lemma runs_join_space:
  assumes "\<forall>w \<in> set ws. w \<noteq> [] \<and> (\<forall>c \<in> set w. \<not> is_space c)"
  shows "runs (\<lambda>c. \<not> is_space c) [] (join_space ws) = ws"
  using assms
proof (induction ws rule: join_space.induct)
  case 1
  show ?case by simp
next
  case (2 w)
  then have "runs (\<lambda>c. \<not> is_space c) [] (w @ []) = runs (\<lambda>c. \<not> is_space c) ([] @ w) []"
    by (intro runs_append) simp
  with 2 show ?case by simp
next
  case (3 w v ws)
  have sp: "is_space CHR '' ''" by (simp add: is_space_def ascii_whitespace_def)
  from 3 have w: "w \<noteq> []" "\<forall>c \<in> set w. \<not> is_space c" by simp_all
  have "runs (\<lambda>c. \<not> is_space c) [] (w @ CHR '' '' # join_space (v # ws))
      = runs (\<lambda>c. \<not> is_space c) ([] @ w) (CHR '' '' # join_space (v # ws))"
    using w(2) by (intro runs_append) simp
  also have "\<dots> = w # runs (\<lambda>c. \<not> is_space c) [] (join_space (v # ws))"
    using w(1) sp by simp
  also have "\<dots> = w # v # ws" using 3 by simp
  finally show ?case by simp
qed

lemma split_whitespace_join_space:
  "split_whitespace (join_space (split_whitespace s)) = split_whitespace s"
  unfolding split_whitespace_def
proof (rule runs_join_space, intro ballI conjI)
  fix w assume w: "w \<in> set (runs (\<lambda>c. \<not> is_space c) [] s)"
  show "w \<noteq> []" using w runs_nonempty by metis
  show "\<And>c. c \<in> set w \<Longrightarrow> \<not> is_space c" using runs_all [OF w] by simp
qed


lemma lower_char_cases:
  "(is_upper c \<and> is_lower (lower_char c)) \<or> lower_char c = c"
proof (cases "map_of (zip ascii_uppercase ascii_lowercase) c")
  case None
  then show ?thesis by (simp add: lower_char_def)
next
  case (Some l)
  then have "(c, l) \<in> set (zip ascii_uppercase ascii_lowercase)" by (rule map_of_SomeD)
  then have "c \<in> set ascii_uppercase" "l \<in> set ascii_lowercase"
    by (auto dest: set_zip_leftD set_zip_rightD)
  with Some show ?thesis by (simp add: lower_char_def is_upper_def is_lower_def)
qed

lemma upper_char_cases:
  "(is_lower c \<and> is_upper (upper_char c)) \<or> upper_char c = c"
proof (cases "map_of (zip ascii_lowercase ascii_uppercase) c")
  case None
  then show ?thesis by (simp add: upper_char_def)
next
  case (Some u)
  then have "(c, u) \<in> set (zip ascii_lowercase ascii_uppercase)" by (rule map_of_SomeD)
  then have "c \<in> set ascii_lowercase" "u \<in> set ascii_uppercase"
    by (auto dest: set_zip_leftD set_zip_rightD)
  with Some show ?thesis by (simp add: upper_char_def is_upper_def is_lower_def)
qed

lemma is_alpha_lower_char: "is_alpha (lower_char c) \<longleftrightarrow> is_alpha c"
  using lower_char_cases [of c] by (auto simp: is_alpha_def)

lemma is_alpha_upper_char: "is_alpha (upper_char c) \<longleftrightarrow> is_alpha c"
  using upper_char_cases [of c] by (auto simp: is_alpha_def)

lemma is_alpha_not_space: "is_alpha c \<Longrightarrow> \<not> is_space c"
proof -
  have "set (ascii_uppercase @ ascii_lowercase) \<inter> set ascii_whitespace = {}"
    by code_simp
  then show "is_alpha c \<Longrightarrow> \<not> is_space c"
    by (auto simp: is_alpha_def is_upper_def is_lower_def is_space_def)
qed

lemma forbidden_words_lowercase:
  "\<forall>f \<in> set forbidden_label_words. f \<noteq> [] \<and> (\<forall>c \<in> set f. is_lower c)"
  by code_simp

lemma forbidden_word_alpha:
  assumes "lower w \<in> set forbidden_label_words"
  shows "w \<noteq> [] \<and> (\<forall>c \<in> set w. is_alpha c)"
proof -
  from assms forbidden_words_lowercase
  have ne: "lower w \<noteq> []" and lo: "\<forall>c \<in> set (lower w). is_lower c" by blast+
  from ne have "w \<noteq> []" by (simp add: lower_def)
  moreover have "is_alpha c" if "c \<in> set w" for c
  proof -
    from that lo have "is_lower (lower_char c)" by (simp add: lower_def)
    then have "is_alpha (lower_char c)" by (simp add: is_alpha_def)
    then show ?thesis by (simp only: is_alpha_lower_char)
  qed
  ultimately show ?thesis by blast
qed

lemma title_from_alpha:
  "\<exists>c \<in> set s. is_alpha c \<Longrightarrow> \<exists>c \<in> set (title_from b s). is_alpha c"
  by (induction s arbitrary: b) (auto simp: is_alpha_lower_char is_alpha_upper_char)

lemma remove_punctuation_alpha:
  "\<exists>c \<in> set s. is_alpha c \<Longrightarrow> \<exists>c \<in> set (remove_punctuation s). is_alpha c"
  by (auto simp: remove_punctuation_def is_word_char_def)

lemma dropWhile_keeps: "x \<in> set xs \<Longrightarrow> \<not> P x \<Longrightarrow> x \<in> set (dropWhile P xs)"
  by (induction xs) auto

lemma strip_alpha:
  assumes "\<exists>c \<in> set s. is_alpha c"
  shows "strip s \<noteq> []"
proof -
  from assms obtain c where c: "c \<in> set s" "\<not> is_space c"
    using is_alpha_not_space by blast
  then have "c \<in> set (dropWhile is_space s)" by (simp add: dropWhile_keeps)
  then have "c \<in> set (rev (dropWhile is_space s))" by simp
  then have "c \<in> set (dropWhile is_space (rev (dropWhile is_space s)))"
    using c(2) by (rule dropWhile_keeps)
  then have "dropWhile is_space (rev (dropWhile is_space s)) \<noteq> []"
    by (cases "dropWhile is_space (rev (dropWhile is_space s))") simp_all
  then show ?thesis by (simp only: strip_def rev_is_Nil_conv not_False_eq_True)
qed

lemma join_space_subset: "w \<in> set ws \<Longrightarrow> set w \<subseteq> set (join_space ws)"
  by (induction ws rule: join_space.induct) auto

lemma py_take_hd: "ws \<noteq> [] \<Longrightarrow> 1 \<le> k \<Longrightarrow> hd ws \<in> set (py_take k ws)"
  by (cases ws) (auto simp: py_take_def nat_le_iff take_Cons' )


lemma clean_label_words:
  "clean_label label max_words =
     (let words = split_whitespace label;
          cleaned_words = filter (\<lambda>w. lower w \<notin> set forbidden_label_words) words;
          cleaned_words = (if cleaned_words = [] then words else cleaned_words);
          cleaned_words = (if int (length cleaned_words) > max_words
                           then py_take max_words cleaned_words else cleaned_words)
      in strip (remove_punctuation (title (join_space cleaned_words))))"
proof (cases "label = []")
  case True
  then show ?thesis
    by (simp add: clean_label_def split_whitespace_def py_take_def title_def
        remove_punctuation_def strip_def)
next
  case False
  then show ?thesis
    by (simp add: clean_label_def split_whitespace_join_space Let_def)
qed

text \<open>
  Claim C10.  When every word of a label is a forbidden word, the forbidden-word
  filter is undone and the original words are kept: the cleaned label is the
  truncation to \<open>max_words\<close> words, title-cased, without punctuation other than
  \<open>&\<close> and \<open>-\<close>, stripped.  With at least one word and a word limit of at least
  one the result is not empty.  The label \<open>video\<close> is cleaned to \<open>Video\<close>, so a
  forbidden word does appear in a cleaned label.
\<close>

theorem clean_label_all_forbidden:
  "((\<forall>w \<in> set (split_whitespace label). lower w \<in> set forbidden_label_words) \<longrightarrow>
      clean_label label max_words
        = strip (remove_punctuation (title (join_space
            (if int (length (split_whitespace label)) > max_words
             then py_take max_words (split_whitespace label)
             else split_whitespace label))))
      \<and> (split_whitespace label \<noteq> [] \<longrightarrow> 1 \<le> max_words \<longrightarrow> clean_label label max_words \<noteq> []))
   \<and> clean_label ''video'' 4 = ''Video''
   \<and> clean_label ''Video'' 4 = ''Video''"
proof (intro conjI impI)
  assume all: "\<forall>w \<in> set (split_whitespace label). lower w \<in> set forbidden_label_words"
  define ws where "ws = split_whitespace label"
  define kept where "kept = (if int (length ws) > max_words then py_take max_words ws else ws)"
  from all have "filter (\<lambda>w. lower w \<notin> set forbidden_label_words) ws = []"
    by (simp add: ws_def filter_empty_conv)
  then have eq: "clean_label label max_words
      = strip (remove_punctuation (title (join_space kept)))"
    by (simp add: clean_label_words Let_def ws_def [symmetric] kept_def)
  then show "clean_label label max_words
        = strip (remove_punctuation (title (join_space
            (if int (length (split_whitespace label)) > max_words
             then py_take max_words (split_whitespace label)
             else split_whitespace label))))"
    by (simp add: kept_def ws_def)
  show "clean_label label max_words \<noteq> []"
    if ne: "split_whitespace label \<noteq> []" and mw: "1 \<le> max_words"
  proof -
    from ne have ws: "ws \<noteq> []" by (simp add: ws_def)
    then have "hd ws \<in> set ws" by simp
    with all have "lower (hd ws) \<in> set forbidden_label_words" by (simp add: ws_def)
    then have hd: "hd ws \<noteq> []" "\<forall>c \<in> set (hd ws). is_alpha c"
      using forbidden_word_alpha by blast+
    have "hd ws \<in> set kept"
      using ws mw py_take_hd [of ws max_words] by (simp add: kept_def)
    then have "set (hd ws) \<subseteq> set (join_space kept)" by (rule join_space_subset)
    with hd have "\<exists>c \<in> set (join_space kept). is_alpha c"
      by (cases "hd ws") auto
    then have "\<exists>c \<in> set (title (join_space kept)). is_alpha c"
      unfolding title_def by (rule title_from_alpha)
    then have "\<exists>c \<in> set (remove_punctuation (title (join_space kept))). is_alpha c"
      by (rule remove_punctuation_alpha)
    then have "strip (remove_punctuation (title (join_space kept))) \<noteq> []"
      by (rule strip_alpha)
    with eq show ?thesis by simp
  qed
next
  show "clean_label ''video'' 4 = ''Video''" by code_simp
  show "clean_label ''Video'' 4 = ''Video''" by code_simp
qed

theorem clean_label_all_forbidden_witness:
  "clean_label ''  saved   YouTube video '' 4 = ''Saved Youtube Video''
   \<and> clean_label ''saved YouTube video'' 2 = ''Saved Youtube''"
proof -
  have w: "\<forall>w \<in> set (split_whitespace ''  saved   YouTube video '').
      lower w \<in> set forbidden_label_words"
    by code_simp
  have w2: "\<forall>w \<in> set (split_whitespace ''saved YouTube video'').
      lower w \<in> set forbidden_label_words"
    by code_simp
  note c = clean_label_all_forbidden [of "''  saved   YouTube video ''" 4]
  note c2 = clean_label_all_forbidden [of "''saved YouTube video''" 2]
  have r: "strip (remove_punctuation (title (join_space
            (if int (length (split_whitespace ''  saved   YouTube video '')) > 4
             then py_take 4 (split_whitespace ''  saved   YouTube video '')
             else split_whitespace ''  saved   YouTube video '')))) = ''Saved Youtube Video''"
    by code_simp
  have r2: "strip (remove_punctuation (title (join_space
            (if int (length (split_whitespace ''saved YouTube video'')) > 2
             then py_take 2 (split_whitespace ''saved YouTube video'')
             else split_whitespace ''saved YouTube video'')))) = ''Saved Youtube''"
    by code_simp
  from c w r have "clean_label ''  saved   YouTube video '' 4 = ''Saved Youtube Video''"
    by (simp only:)
  moreover from c2 w2 r2 have "clean_label ''saved YouTube video'' 2 = ''Saved Youtube''"
    by (simp only:)
  ultimately show ?thesis by blast
qed

section \<open>Vector index (\<open>InMemoryVectorStore\<close>)\<close>

text \<open>
  A metadata dictionary maps string keys to JSON scalars.  \<open>py_eq\<close> is Python's
  \<open>==\<close> on them: \<open>bool\<close> is a subclass of \<open>int\<close>, so \<open>True == 1\<close> and
  \<open>False == 0\<close>.  A dictionary literal is an association list with distinct keys;
  \<open>mget\<close> is \<open>metadata.get(k)\<close>, which yields \<open>None\<close> for an absent key.
\<close>

datatype mval = MNone | MStr string | MInt int | MBool bool

fun py_eq :: "mval \<Rightarrow> mval \<Rightarrow> bool" where
  "py_eq (MBool b) (MInt i) = (i = (if b then 1 else 0))"
| "py_eq (MInt i) (MBool b) = (i = (if b then 1 else 0))"
| "py_eq x y = (x = y)"

type_synonym metadata = "(string \<times> mval) list"

definition mget :: "metadata \<Rightarrow> string \<Rightarrow> mval" where
  "mget m k = (case map_of m k of None \<Rightarrow> MNone | Some v \<Rightarrow> v)"

text \<open>
  \<open>self._vectors\<close> is a Python dictionary: iteration follows insertion order, and
  assigning to a key that is present keeps the key's position.  Writing the store to
  its JSON file (\<open>_save\<close>) swallows every failure and is not modelled.
\<close>

type_synonym vector_store = "(string \<times> real list \<times> metadata) list"

fun add_vector :: "string \<Rightarrow> real list \<Rightarrow> metadata \<Rightarrow> vector_store \<Rightarrow> vector_store" where
  "add_vector vector_id emb meta [] = [(vector_id, emb, meta)]"
| "add_vector vector_id emb meta ((k, v) # rest) =
     (if k = vector_id then (vector_id, emb, meta) # rest
      else (k, v) # add_vector vector_id emb meta rest)"

definition get_vector :: "vector_store \<Rightarrow> string \<Rightarrow> (real list \<times> metadata) option" where
  "get_vector vs vector_id = map_of vs vector_id"

definition delete_vector :: "string \<Rightarrow> vector_store \<Rightarrow> bool \<times> vector_store" where
  "delete_vector vector_id vs =
     (if vector_id \<in> fst ` set vs then (True, filter (\<lambda>e. fst e \<noteq> vector_id) vs)
      else (False, vs))"

definition filter_matches :: "metadata \<Rightarrow> metadata \<Rightarrow> bool" where
  "filter_matches filter_metadata meta =
     list_all (\<lambda>(k, v). py_eq (mget meta k) v) filter_metadata"

type_synonym search_result = "string \<times> real \<times> metadata"

definition score_of :: "'a \<times> real \<times> 'b \<Rightarrow> real" where
  "score_of r = fst (snd r)"

text \<open>The loop of \<open>search\<close>: an entry that fails the filter is skipped before any
  similarity is computed, and an entry whose similarity raises is skipped.\<close>

fun scan_vectors :: "real list \<Rightarrow> metadata \<Rightarrow> vector_store \<Rightarrow> search_result list" where
  "scan_vectors query_embedding filter_metadata [] = []"
| "scan_vectors query_embedding filter_metadata ((vector_id, emb, meta) # rest) =
     (if filter_metadata \<noteq> [] \<and> \<not> filter_matches filter_metadata meta
      then scan_vectors query_embedding filter_metadata rest
      else case cosine_similarity query_embedding emb of
             Inl e \<Rightarrow> scan_vectors query_embedding filter_metadata rest
           | Inr score \<Rightarrow>
               (vector_id, score, meta) # scan_vectors query_embedding filter_metadata rest)"

text \<open>\<open>results.sort(key=lambda x: x[1], reverse=True)\<close>: a stable sort by
  descending score.\<close>

definition sort_by_score_desc :: "('a \<times> real \<times> 'b) list \<Rightarrow> ('a \<times> real \<times> 'b) list" where
  "sort_by_score_desc results = sort_key (\<lambda>r. - score_of r) results"

definition search :: "vector_store \<Rightarrow> real list \<Rightarrow> int \<Rightarrow> metadata \<Rightarrow> search_result list" where
  "search vs query_embedding top_k filter_metadata =
     py_take top_k (sort_by_score_desc (scan_vectors query_embedding filter_metadata vs))"

lemma scan_vectors_eq:
  "scan_vectors q flt vs =
     List.map_filter (\<lambda>(vector_id, emb, meta).
        if filter_matches flt meta
        then (case cosine_similarity q emb of Inl e \<Rightarrow> None
              | Inr score \<Rightarrow> Some (vector_id, score, meta))
        else None) vs"
  by (induction q flt vs rule: scan_vectors.induct)
     (auto simp: List.map_filter_simps filter_matches_def split: sum.splits)

lemma py_take_prefix: "\<exists>rest. xs = py_take k xs @ rest"
  by (metis append_take_drop_id py_take_def)

lemma py_take_length: "0 \<le> k \<Longrightarrow> int (length (py_take k xs)) \<le> k"
  by (simp add: py_take_def)

lemma sort_by_score_desc_sorted:
  "sorted_wrt (\<lambda>x y. score_of y \<le> score_of x) (sort_by_score_desc xs)"
proof -
  have "sorted (map (\<lambda>r. - score_of r) (sort_by_score_desc xs))"
    by (simp add: sort_by_score_desc_def)
  then show ?thesis
    by (simp add: sorted_map sorted_wrt_iff_nth_less)
qed

lemma sort_by_score_desc_stable:
  "filter (\<lambda>r. score_of r = s) (sort_by_score_desc xs) = filter (\<lambda>r. score_of r = s) xs"
proof -
  have "filter (\<lambda>r. - score_of r = - s) (sort_key (\<lambda>r. - score_of r) xs)
      = filter (\<lambda>r. - score_of r = - s) xs"
    by (rule sort_key_stable)
  then show ?thesis by (simp add: sort_by_score_desc_def)
qed

lemma sort_by_score_desc_mset: "mset (sort_by_score_desc xs) = mset xs"
  by (simp add: sort_by_score_desc_def)


lemma scan_vectors_origin:
  "r \<in> set (scan_vectors q flt vs) \<Longrightarrow>
     \<exists>emb. (fst r, emb, snd (snd r)) \<in> set vs \<and> filter_matches flt (snd (snd r))
          \<and> cosine_similarity q emb = Inr (score_of r)"
  by (induction q flt vs rule: scan_vectors.induct)
     (auto simp: score_of_def filter_matches_def split: if_splits sum.splits)

lemma filter_prefix:
  "xs = ys @ rest \<Longrightarrow> \<exists>rest'. filter P xs = filter P ys @ rest'"
  by auto

text \<open>
  Claim C8.  \<open>search\<close> keeps exactly the stored vectors whose metadata equals the
  filter on every filter key and whose similarity to the query is defined, in
  insertion order, each with its id, score and metadata.  The result is an initial
  segment of the stable descending sort of these candidates: it is ordered by
  descending score, entries of equal score keep their insertion order, every
  candidate left out scores no higher than the ones returned, and for a
  non-negative \<open>top_k\<close> it has at most \<open>top_k\<close> entries.
\<close>

theorem search_spec:
  "scan_vectors q flt vs =
     List.map_filter (\<lambda>(vector_id, emb, meta).
        if filter_matches flt meta
        then (case cosine_similarity q emb of Inl e \<Rightarrow> None
              | Inr score \<Rightarrow> Some (vector_id, score, meta))
        else None) vs
   \<and> (\<forall>r \<in> set (search vs q top_k flt).
        \<exists>emb. (fst r, emb, snd (snd r)) \<in> set vs \<and> filter_matches flt (snd (snd r))
             \<and> cosine_similarity q emb = Inr (score_of r))
   \<and> (0 \<le> top_k \<longrightarrow> int (length (search vs q top_k flt)) \<le> top_k)
   \<and> sorted_wrt (\<lambda>x y. score_of y \<le> score_of x) (search vs q top_k flt)
   \<and> (\<forall>s. \<exists>rest. filter (\<lambda>r. score_of r = s) (scan_vectors q flt vs)
                  = filter (\<lambda>r. score_of r = s) (search vs q top_k flt) @ rest)
   \<and> (\<exists>rest. mset (search vs q top_k flt @ rest) = mset (scan_vectors q flt vs)
            \<and> sorted_wrt (\<lambda>x y. score_of y \<le> score_of x) (search vs q top_k flt @ rest))"
proof -
  define C where "C = scan_vectors q flt vs"
  define S where "S = sort_by_score_desc C"
  define R where "R = search vs q top_k flt"
  have R: "R = py_take top_k S" by (simp add: R_def S_def C_def search_def)
  then obtain rest where rest: "S = R @ rest" using py_take_prefix by metis
  have sorted_S: "sorted_wrt (\<lambda>x y. score_of y \<le> score_of x) S"
    unfolding S_def by (rule sort_by_score_desc_sorted)
  have mset_S: "mset S = mset C" unfolding S_def by (rule sort_by_score_desc_mset)
  have stable_S: "filter (\<lambda>r. score_of r = s) S = filter (\<lambda>r. score_of r = s) C" for s
    unfolding S_def by (rule sort_by_score_desc_stable)
  have 1: "\<forall>r \<in> set R. \<exists>emb. (fst r, emb, snd (snd r)) \<in> set vs
      \<and> filter_matches flt (snd (snd r)) \<and> cosine_similarity q emb = Inr (score_of r)"
  proof
    fix r assume "r \<in> set R"
    with rest have "r \<in> set S" by simp
    then have "r \<in># mset C" by (simp only: mset_S [symmetric] set_mset_mset)
    then have "r \<in> set (scan_vectors q flt vs)" by (simp add: C_def)
    then show "\<exists>emb. (fst r, emb, snd (snd r)) \<in> set vs
      \<and> filter_matches flt (snd (snd r)) \<and> cosine_similarity q emb = Inr (score_of r)"
      by (rule scan_vectors_origin)
  qed
  have 2: "0 \<le> top_k \<longrightarrow> int (length R) \<le> top_k"
    by (simp add: R py_take_length)
  have 3: "sorted_wrt (\<lambda>x y. score_of y \<le> score_of x) R"
    using sorted_S rest by (simp add: sorted_wrt_append)
  have 4: "\<forall>s. \<exists>rest'. filter (\<lambda>r. score_of r = s) C = filter (\<lambda>r. score_of r = s) R @ rest'"
  proof
    fix s
    from rest have "\<exists>rest'. filter (\<lambda>r. score_of r = s) S = filter (\<lambda>r. score_of r = s) R @ rest'"
      by (rule filter_prefix)
    then show "\<exists>rest'. filter (\<lambda>r. score_of r = s) C = filter (\<lambda>r. score_of r = s) R @ rest'"
      by (simp only: stable_S)
  qed
  have 5: "\<exists>rest. mset (R @ rest) = mset C
      \<and> sorted_wrt (\<lambda>x y. score_of y \<le> score_of x) (R @ rest)"
    using rest mset_S sorted_S by metis
  show ?thesis
    using scan_vectors_eq [of q flt vs] 1 2 3 4 5
    unfolding C_def R_def by blast
qed

definition demo_store :: vector_store where
  "demo_store =
     [(''a'', [1, 0], [(''type'', MStr ''folder''), (''depth'', MInt 1)]),
      (''b'', [0, 1], [(''type'', MStr ''folder''), (''depth'', MInt 1)]),
      (''c'', [1, 0], [(''type'', MStr ''folder''), (''depth'', MInt 1)]),
      (''d'', [1, 0], [(''type'', MStr ''folder''), (''depth'', MInt 2)]),
      (''e'', [1, 0, 0], [(''type'', MStr ''folder''), (''depth'', MInt 1)])]"

lemmas search_eval =
  search_def scan_vectors.simps filter_matches_def mget_def cosine_similarity_def
  norm_vec_def dot_product_def sort_by_score_desc_def score_of_def py_take_def Let_def

theorem search_spec_witness:
  "search demo_store [1, 0] 2 [(''type'', MStr ''folder''), (''depth'', MInt 1)]
     = [(''a'', 1, [(''type'', MStr ''folder''), (''depth'', MInt 1)]),
        (''c'', 1, [(''type'', MStr ''folder''), (''depth'', MInt 1)])]
   \<and> int (length (search demo_store [1, 0] 2
        [(''type'', MStr ''folder''), (''depth'', MInt 1)])) \<le> 2
   \<and> filter_matches [(''type'', MStr ''folder''), (''depth'', MInt 1)]
        [(''type'', MStr ''folder''), (''depth'', MInt 1)]"
proof -
  have e: "search demo_store [1, 0] 2 [(''type'', MStr ''folder''), (''depth'', MInt 1)]
     = [(''a'', 1, [(''type'', MStr ''folder''), (''depth'', MInt 1)]),
        (''c'', 1, [(''type'', MStr ''folder''), (''depth'', MInt 1)])]"
    by (simp add: demo_store_def search_eval)
  note s = search_spec [of "[1, 0]" "[(''type'', MStr ''folder''), (''depth'', MInt 1)]"
      demo_store 2]
  have k: "(0::int) \<le> 2" by simp
  from s k have "int (length (search demo_store [1, 0] 2
        [(''type'', MStr ''folder''), (''depth'', MInt 1)])) \<le> 2"
    by blast
  moreover from s have "\<forall>r \<in> set (search demo_store [1, 0] 2
        [(''type'', MStr ''folder''), (''depth'', MInt 1)]).
        filter_matches [(''type'', MStr ''folder''), (''depth'', MInt 1)] (snd (snd r))"
    by blast
  then have "filter_matches [(''type'', MStr ''folder''), (''depth'', MInt 1)]
        [(''type'', MStr ''folder''), (''depth'', MInt 1)]"
    by (simp add: e)
  ultimately show ?thesis using e by blast
qed

section \<open>Data model (\<open>models.py\<close>)\<close>

datatype folder_depth = DOMAIN | SUBDOMAIN | LEAF

datatype match_action = REUSE_EXISTING | CREATE_NEW | ATTACH_AS_CHILD | SKIP

text \<open>\<open>LabelWithAliases\<close>; the fields carry the prefix \<open>la_\<close> because \<open>label\<close> and
  \<open>aliases\<close> are fields of \<open>FolderEntity\<close> too.\<close>

record label_with_aliases =
  la_label :: string
  la_aliases :: "string list"
  la_optional :: bool

record taxonomy_candidate =
  domain :: label_with_aliases
  subdomain :: label_with_aliases
  leaf_topic :: "label_with_aliases option"
  tags :: "string list"
  confidence :: real
  rationale :: string

text \<open>\<open>FolderEntity\<close> without its two time stamps and without \<open>user_id\<close>, which the
  matcher never sets.  A depth is a count of path segments.\<close>

record folder_entity =
  folder_id :: string
  path :: string
  label :: string
  depth :: nat
  parent_id :: "string option"
  aliases :: "string list"
  embedding_id :: "string option"
  embedding :: "real list option"
  item_count :: int
  is_seed :: bool

text \<open>\<open>MatchResult\<close> without its free-text \<open>notes\<close>.\<close>

record match_result =
  level :: folder_depth
  action :: match_action
  matched_folder :: "folder_entity option"
  new_folder :: "folder_entity option"
  similarity_score :: real
  label_used :: string

definition get_folder :: "match_result \<Rightarrow> folder_entity option" where
  "get_folder r = (case matched_folder r of Some f \<Rightarrow> Some f | None \<Rightarrow> new_folder r)"

record hierarchical_match =
  domain_result :: match_result
  subdomain_result :: match_result
  leaf_result :: "match_result option"

text \<open>\<open>sep.join(parts)\<close>.\<close>

fun join_with :: "string \<Rightarrow> string list \<Rightarrow> string" where
  "join_with sep [] = []"
| "join_with sep [w] = w"
| "join_with sep (w # v # ws) = w @ sep @ join_with sep (v # ws)"

definition get_final_path :: "hierarchical_match \<Rightarrow> string" where
  "get_final_path m =
     (let parts = (case get_folder (domain_result m) of
                     Some domain_folder \<Rightarrow> [label domain_folder] | None \<Rightarrow> []);
          parts = parts @ (case get_folder (subdomain_result m) of
                     Some subdomain_folder \<Rightarrow> [label subdomain_folder] | None \<Rightarrow> []);
          parts = parts @ (case leaf_result m of
                     None \<Rightarrow> []
                   | Some lr \<Rightarrow>
                       (case get_folder lr of
                          Some leaf_folder \<Rightarrow>
                            if action lr \<noteq> SKIP then [label leaf_folder] else []
                        | None \<Rightarrow> []))
      in join_with ''/'' parts)"

definition get_created_folders :: "hierarchical_match \<Rightarrow> folder_entity list" where
  "get_created_folders m =
     (case new_folder (domain_result m) of
        Some f \<Rightarrow> if action (domain_result m) = CREATE_NEW then [f] else []
      | None \<Rightarrow> [])
     @ (case new_folder (subdomain_result m) of
        Some f \<Rightarrow> if action (subdomain_result m) \<in> {CREATE_NEW, ATTACH_AS_CHILD} then [f] else []
      | None \<Rightarrow> [])
     @ (case leaf_result m of
        None \<Rightarrow> []
      | Some lr \<Rightarrow>
          (case new_folder lr of
             Some f \<Rightarrow> if action lr \<in> {CREATE_NEW, ATTACH_AS_CHILD} then [f] else []
           | None \<Rightarrow> []))"

definition get_reused_folders :: "hierarchical_match \<Rightarrow> folder_entity list" where
  "get_reused_folders m =
     (case matched_folder (domain_result m) of
        Some f \<Rightarrow> if action (domain_result m) = REUSE_EXISTING then [f] else []
      | None \<Rightarrow> [])
     @ (case matched_folder (subdomain_result m) of
        Some f \<Rightarrow> if action (subdomain_result m) = REUSE_EXISTING then [f] else []
      | None \<Rightarrow> [])
     @ (case leaf_result m of
        None \<Rightarrow> []
      | Some lr \<Rightarrow>
          (case matched_folder lr of
             Some f \<Rightarrow> if action lr = REUSE_EXISTING then [f] else []
           | None \<Rightarrow> []))"

section \<open>Folder matcher (\<open>folder_matcher.py\<close>)\<close>

text \<open>
  The collaborators and the configuration of a \<open>FolderMatcher\<close> do not change
  while it runs and are kept apart from its state:
  \<^item> \<open>embed_backend\<close> is the embedding of a text by the embedding service
    (\<open>_configure\<close> and \<open>genai.embed_content\<close>), \<open>None\<close> when it raises; being a
    function, it is deterministic, and the service's cache, keyed by the text, is
    then invisible;
  \<^item> \<open>uuid4 n\<close> is the string of the \<open>n\<close>-th \<open>uuid.uuid4()\<close> drawn by the
    matcher, and the state counts the draws.
\<close>

record env =
  embed_backend :: "string \<Rightarrow> real list option"
  max_text_length :: int
  uuid4 :: "nat \<Rightarrow> string"
  thresholds :: threshold_config

text \<open>The state: the vector store's \<open>_vectors\<close>, \<open>_folder_cache\<close>,
  \<open>_folders_by_depth\<close> (with \<open>get(depth, [])\<close> read as a total function) and the
  number of UUIDs drawn so far.\<close>

record matcher =
  vectors :: vector_store
  folder_cache :: "string \<rightharpoonup> folder_entity"
  folders_by_depth :: "nat \<Rightarrow> folder_entity list"
  uuid_count :: nat

definition empty_matcher :: matcher where
  "empty_matcher =
     \<lparr> vectors = [], folder_cache = Map.empty, folders_by_depth = (\<lambda>d. []), uuid_count = 0 \<rparr>"

definition generate_embedding :: "env \<Rightarrow> string \<Rightarrow> error + real list" where
  "generate_embedding e text =
     (if text = [] \<or> strip text = [] then Inl EmptyText
      else let text = (if int (length text) > max_text_length e
                       then py_take (max_text_length e) text else text)
           in case embed_backend e text of
                None \<Rightarrow> Inl EmbeddingUnavailable
              | Some v \<Rightarrow> Inr v)"

text \<open>\<open>path.split('/')\<close> and \<open>path.replace('/', ' > ')\<close>.\<close>

fun split_sep :: "char \<Rightarrow> string \<Rightarrow> string \<Rightarrow> string list" where
  "split_sep sep cur [] = [cur]"
| "split_sep sep cur (c # cs) =
     (if c = sep then cur # split_sep sep [] cs else split_sep sep (cur @ [c]) cs)"

definition path_segments :: "string \<Rightarrow> string list" where
  "path_segments p = split_sep CHR ''/'' [] p"

definition replace_slash :: "string \<Rightarrow> string" where
  "replace_slash p = concat (map (\<lambda>c. if c = CHR ''/'' then '' > '' else [c]) p)"

text \<open>A metadata entry read as a string.  Every writer in the repository stores
  \<open>folder_id\<close>, \<open>path\<close> and \<open>parent_id\<close> as strings (or \<open>None\<close>); an entry of
  another type is read as absent.\<close>

definition meta_str :: "metadata \<Rightarrow> string \<Rightarrow> string option" where
  "meta_str m k = (case mget m k of MStr s \<Rightarrow> Some s | _ \<Rightarrow> None)"

text \<open>A candidate of \<open>_find_best_match\<close>: the embedding id (a string for a result of
  the vector store, the folder's optional \<open>embedding_id\<close> for a folder of the cache),
  the score and the metadata.\<close>

type_synonym match_candidate = "string option \<times> real \<times> metadata"

text \<open>Python's truth value of an optional string: \<open>None\<close> and \<open>""\<close> are false.\<close>

definition truthy :: "string option \<Rightarrow> bool" where
  "truthy s = (case s of None \<Rightarrow> False | Some t \<Rightarrow> t \<noteq> [])"

definition build_filter :: "nat \<Rightarrow> string option \<Rightarrow> metadata" where
  "build_filter d parent =
     [(''type'', MStr ''folder''), (''depth'', MInt (int d))]
     @ (if truthy parent then [(''parent_id'', MStr (the parent))] else [])"

text \<open>The loop over the cached folders (lines 319 to 332): a folder with a
  non-empty embedding whose similarity is defined is appended unless its embedding
  id is already among the results.\<close>

fun augment :: "real list \<Rightarrow> folder_entity list \<Rightarrow> match_candidate list \<Rightarrow> match_candidate list" where
  "augment q [] results = results"
| "augment q (folder # rest) results =
     (case embedding folder of
        None \<Rightarrow> augment q rest results
      | Some emb \<Rightarrow>
          if emb = [] then augment q rest results
          else case cosine_similarity q emb of
                 Inl e \<Rightarrow> augment q rest results
               | Inr score \<Rightarrow>
                   if \<not> list_ex (\<lambda>r. fst r = embedding_id folder) results
                   then augment q rest
                          (results @ [(embedding_id folder, score,
                             [(''folder_id'', MStr (folder_id folder)),
                              (''path'', MStr (path folder))])])
                   else augment q rest results)"

text \<open>Lines 300 to 335: the sorted candidate list for a query embedding.\<close>

definition collect_candidates ::
  "matcher \<Rightarrow> real list \<Rightarrow> nat \<Rightarrow> string option \<Rightarrow> match_candidate list" where
  "collect_candidates s q d parent =
     (let results = map (\<lambda>(vector_id, score, meta). (Some vector_id, score, meta))
                      (search (vectors s) q 5 (build_filter d parent));
          results =
            (if length results < 3
             then let candidates = folders_by_depth s d;
                      candidates = (if truthy parent
                                    then filter (\<lambda>f. parent_id f = parent) candidates
                                    else candidates)
                  in augment q candidates results
             else results)
      in sort_by_score_desc results)"

text \<open>Lines 344 to 357: the folder of a candidate, from the cache or rebuilt from the
  metadata's path; rebuilding draws a UUID when the metadata has no folder id.\<close>

definition resolve_folder ::
  "env \<Rightarrow> matcher \<Rightarrow> nat \<Rightarrow> string option \<Rightarrow> metadata \<Rightarrow> folder_entity option \<times> matcher" where
  "resolve_folder e s d emb_id meta =
     (let fid = meta_str meta ''folder_id'' in
      case (case fid of Some i \<Rightarrow> folder_cache s i | None \<Rightarrow> None) of
        Some folder \<Rightarrow> (Some folder, s)
      | None \<Rightarrow>
          let p = (case meta_str meta ''path'' of Some p \<Rightarrow> p | None \<Rightarrow> []) in
          if p \<noteq> [] then
            let (i, s') = (if truthy fid then (the fid, s)
                           else (uuid4 e (uuid_count s), s\<lparr>uuid_count := Suc (uuid_count s)\<rparr>))
            in (Some \<lparr> folder_id = i, path = p, label = last (path_segments p), depth = d,
                        parent_id = None, aliases = [], embedding_id = emb_id,
                        embedding = None, item_count = 0, is_seed = False \<rparr>, s')
          else (None, s))"

text \<open>The loop of lines 340 to 364 over the sorted candidates.\<close>

fun walk ::
  "env \<Rightarrow> matcher \<Rightarrow> string \<Rightarrow> nat \<Rightarrow> real \<Rightarrow> match_candidate list
     \<Rightarrow> (folder_entity option \<times> real) \<times> matcher" where
  "walk e s search_text d threshold [] = ((None, 0), s)"
| "walk e s search_text d threshold ((emb_id, score, meta) # rest) =
     (if score < threshold then walk e s search_text d threshold rest
      else case resolve_folder e s d emb_id meta of
             (None, s') \<Rightarrow> walk e s' search_text d threshold rest
           | (Some folder, s') \<Rightarrow>
               if sanity_check (thresholds e) search_text (path folder) score
               then ((Some folder, score), s')
               else walk e s' search_text d threshold rest)"

definition find_best_match ::
  "env \<Rightarrow> matcher \<Rightarrow> string \<Rightarrow> nat \<Rightarrow> string option \<Rightarrow> real
     \<Rightarrow> (folder_entity option \<times> real) \<times> matcher" where
  "find_best_match e s search_text d parent threshold =
     (case generate_embedding e search_text of
        Inl err \<Rightarrow> ((None, 0), s)
      | Inr query_embedding \<Rightarrow>
          walk e s search_text d threshold (collect_candidates s query_embedding d parent))"

text \<open>\<open>_create_folder\<close>; it is called with depth 1, 2 or 3 only.\<close>

definition create_folder ::
  "env \<Rightarrow> matcher \<Rightarrow> string \<Rightarrow> nat \<Rightarrow> folder_entity option \<Rightarrow> string list
     \<Rightarrow> folder_entity \<times> matcher" where
  "create_folder e s lbl d parent als =
     (let p = (case parent of Some par \<Rightarrow> path par @ ''/'' @ lbl | None \<Rightarrow> lbl);
          fid = uuid4 e (uuid_count s);
          folder = \<lparr> folder_id = fid, path = p, label = lbl, depth = d,
                     parent_id = map_option folder_id parent, aliases = als,
                     embedding_id = None, embedding = None, item_count = 0,
                     is_seed = False \<rparr>;
          (folder, vs) =
            (case generate_embedding e (replace_slash p) of
               Inl err \<Rightarrow> (folder, vectors s)
             | Inr emb \<Rightarrow>
                 let emb_id = ''folder_'' @ fid in
                 (folder\<lparr> embedding_id := Some emb_id, embedding := Some emb \<rparr>,
                  add_vector emb_id emb
                    [(''type'', MStr ''folder''), (''folder_id'', MStr fid),
                     (''path'', MStr p), (''depth'', MInt (int d)),
                     (''parent_id'', (case parent of Some par \<Rightarrow> MStr (folder_id par)
                                                   | None \<Rightarrow> MNone)),
                     (''is_seed'', MBool False)]
                    (vectors s)))
      in (folder,
          s\<lparr> vectors := vs,
             folder_cache := (folder_cache s)(fid \<mapsto> folder),
             folders_by_depth :=
               (if d \<le> 3 then (folders_by_depth s)(d := folders_by_depth s d @ [folder])
                else folders_by_depth s),
             uuid_count := Suc (uuid_count s) \<rparr>))"

definition match_domain :: "env \<Rightarrow> matcher \<Rightarrow> taxonomy_candidate \<Rightarrow> match_result \<times> matcher" where
  "match_domain e s candidate =
     (let search_text = la_label (domain candidate);
          threshold = domain_threshold (thresholds e)
      in case find_best_match e s search_text 1 None threshold of
           ((Some matched, similarity), s') \<Rightarrow>
             (\<lparr> level = DOMAIN, action = REUSE_EXISTING, matched_folder = Some matched,
                new_folder = None, similarity_score = similarity,
                label_used = label matched \<rparr>, s')
         | ((None, similarity), s') \<Rightarrow>
             (case create_folder e s' (la_label (domain candidate)) 1 None
                     (la_aliases (domain candidate)) of
                (new, s'') \<Rightarrow>
                  (\<lparr> level = DOMAIN, action = CREATE_NEW, matched_folder = None,
                     new_folder = Some new, similarity_score = 0,
                     label_used = label new \<rparr>, s'')))"

definition match_subdomain ::
  "env \<Rightarrow> matcher \<Rightarrow> taxonomy_candidate \<Rightarrow> match_result \<Rightarrow> error + match_result \<times> matcher" where
  "match_subdomain e s candidate dom_result =
     (case get_folder dom_result of
        None \<Rightarrow> Inl DomainFolderRequired
      | Some domain_folder \<Rightarrow>
          let search_text = label domain_folder @ '' > '' @ la_label (subdomain candidate);
              threshold = subdomain_threshold (thresholds e)
          in case find_best_match e s search_text 2 (Some (folder_id domain_folder)) threshold of
               ((Some matched, similarity), s') \<Rightarrow>
                 Inr (\<lparr> level = SUBDOMAIN, action = REUSE_EXISTING,
                        matched_folder = Some matched, new_folder = None,
                        similarity_score = similarity, label_used = label matched \<rparr>, s')
             | ((None, similarity), s') \<Rightarrow>
                 (case find_best_match e s' (la_label (subdomain candidate)) 2 None threshold of
                    (probe, s'') \<Rightarrow>
                      (case create_folder e s'' (la_label (subdomain candidate)) 2
                              (Some domain_folder) (la_aliases (subdomain candidate)) of
                         (new, s''') \<Rightarrow>
                           Inr (\<lparr> level = SUBDOMAIN, action = ATTACH_AS_CHILD,
                                  matched_folder = None, new_folder = Some new,
                                  similarity_score = 0, label_used = label new \<rparr>, s'''))))"

definition match_leaf ::
  "env \<Rightarrow> matcher \<Rightarrow> taxonomy_candidate \<Rightarrow> match_result \<Rightarrow> match_result option \<times> matcher" where
  "match_leaf e s candidate sub_result =
     (case leaf_topic candidate of
        None \<Rightarrow> (None, s)
      | Some leaf \<Rightarrow>
          if la_optional leaf
             \<and> confidence candidate < leaf_confidence_threshold (thresholds e)
          then (Some \<lparr> level = LEAF, action = SKIP, matched_folder = None,
                       new_folder = None, similarity_score = 0,
                       label_used = la_label leaf \<rparr>, s)
          else case get_folder sub_result of
                 None \<Rightarrow> (None, s)
               | Some subdomain_folder \<Rightarrow>
                   let search_text = path subdomain_folder @ '' > '' @ la_label leaf;
                       threshold = leaf_threshold (thresholds e)
                   in case find_best_match e s search_text 3
                             (Some (folder_id subdomain_folder)) threshold of
                        ((Some matched, similarity), s') \<Rightarrow>
                          (Some \<lparr> level = LEAF, action = REUSE_EXISTING,
                                   matched_folder = Some matched, new_folder = None,
                                   similarity_score = similarity,
                                   label_used = label matched \<rparr>, s')
                      | ((None, similarity), s') \<Rightarrow>
                          if int (depth subdomain_folder) \<ge> max_depth (thresholds e)
                          then (Some \<lparr> level = LEAF, action = SKIP, matched_folder = None,
                                       new_folder = None, similarity_score = 0,
                                       label_used = la_label leaf \<rparr>, s')
                          else if la_optional leaf
                          then (Some \<lparr> level = LEAF, action = SKIP, matched_folder = None,
                                       new_folder = None, similarity_score = 0,
                                       label_used = la_label leaf \<rparr>, s')
                          else case create_folder e s' (la_label leaf) 3
                                      (Some subdomain_folder) (la_aliases leaf) of
                                 (new, s'') \<Rightarrow>
                                   (Some \<lparr> level = LEAF, action = ATTACH_AS_CHILD,
                                            matched_folder = None, new_folder = Some new,
                                            similarity_score = 0,
                                            label_used = label new \<rparr>, s''))"

definition match :: "env \<Rightarrow> matcher \<Rightarrow> taxonomy_candidate \<Rightarrow> error + hierarchical_match \<times> matcher" where
  "match e s candidate =
     (case match_domain e s candidate of
        (dom_res, s1) \<Rightarrow>
          (case match_subdomain e s1 candidate dom_res of
             Inl err \<Rightarrow> Inl err
           | Inr (sub_res, s2) \<Rightarrow>
               (case match_leaf e s2 candidate sub_res of
                  (leaf_res, s3) \<Rightarrow>
                    Inr (\<lparr> domain_result = dom_res, subdomain_result = sub_res,
                           leaf_result = leaf_res \<rparr>, s3))))"

subsection \<open>Searching never changes the folders\<close>

lemma resolve_folder_frame:
  "resolve_folder e s d emb_id meta = (r, s') \<Longrightarrow>
     vectors s' = vectors s \<and> folder_cache s' = folder_cache s
     \<and> folders_by_depth s' = folders_by_depth s \<and> uuid_count s \<le> uuid_count s'"
  by (auto simp: resolve_folder_def Let_def split: option.splits if_splits prod.splits)

lemma walk_frame:
  "walk e s text d thr cs = (r, s') \<Longrightarrow>
     vectors s' = vectors s \<and> folder_cache s' = folder_cache s
     \<and> folders_by_depth s' = folders_by_depth s \<and> uuid_count s \<le> uuid_count s'"
proof (induction cs arbitrary: s)
  case Nil
  then show ?case by simp
next
  case (Cons c cs)
  obtain emb_id score meta where c: "c = (emb_id, score, meta)" by (cases c) auto
  show ?case
  proof (cases "score < thr")
    case True
    with Cons c show ?thesis by simp
  next
    case False
    obtain f s1 where rf: "resolve_folder e s d emb_id meta = (f, s1)"
      by (cases "resolve_folder e s d emb_id meta") auto
    note fr = resolve_folder_frame [OF rf]
    show ?thesis
    proof (cases "\<exists>folder. f = Some folder
        \<and> sanity_check (thresholds e) text (path folder) score")
      case True
      with Cons.prems c False rf have "s' = s1" by auto
      with fr show ?thesis by simp
    next
      case nomatch: False
      with Cons.prems c False rf have "walk e s1 text d thr cs = (r, s')"
        by (auto split: option.splits if_splits)
      from Cons.IH [OF this] fr show ?thesis by simp
    qed
  qed
qed

lemma find_best_match_frame:
  "find_best_match e s text d parent thr = (r, s') \<Longrightarrow>
     vectors s' = vectors s \<and> folder_cache s' = folder_cache s
     \<and> folders_by_depth s' = folders_by_depth s \<and> uuid_count s \<le> uuid_count s'"
  by (auto simp: find_best_match_def split: sum.splits dest: walk_frame)

text \<open>
  Claim C5.  For a candidate whose leaf topic is present and optional, a leaf result
  is never a creation: its action is \<open>REUSE_EXISTING\<close> or \<open>SKIP\<close>, it carries no
  new folder, and the vector store, the folder cache and the per-depth lists are
  unchanged.  If the confidence is below \<open>leaf_confidence_threshold\<close> (default
  0.70) the result is \<open>SKIP\<close> and the state is unchanged.
\<close>

theorem match_leaf_optional:
  assumes "leaf_topic candidate = Some leaf" and "la_optional leaf"
  shows "(\<forall>r. fst (match_leaf e s candidate sub_result) = Some r \<longrightarrow>
            (action r = REUSE_EXISTING \<or> action r = SKIP)
            \<and> action r \<noteq> CREATE_NEW \<and> action r \<noteq> ATTACH_AS_CHILD
            \<and> new_folder r = None \<and> level r = LEAF)
       \<and> vectors (snd (match_leaf e s candidate sub_result)) = vectors s
       \<and> folder_cache (snd (match_leaf e s candidate sub_result)) = folder_cache s
       \<and> folders_by_depth (snd (match_leaf e s candidate sub_result)) = folders_by_depth s
       \<and> (confidence candidate < leaf_confidence_threshold (thresholds e) \<longrightarrow>
            match_leaf e s candidate sub_result
              = (Some \<lparr> level = LEAF, action = SKIP, matched_folder = None,
                        new_folder = None, similarity_score = 0,
                        label_used = la_label leaf \<rparr>, s))
       \<and> leaf_confidence_threshold default_thresholds = 70 / 100"
proof -
  have low: "match_leaf e s candidate sub_result
      = (Some \<lparr> level = LEAF, action = SKIP, matched_folder = None,
                new_folder = None, similarity_score = 0,
                label_used = la_label leaf \<rparr>, s)"
    if "confidence candidate < leaf_confidence_threshold (thresholds e)"
    using that assms by (simp add: match_leaf_def)
  have d: "leaf_confidence_threshold default_thresholds = 70 / 100"
    by (simp add: default_thresholds_def)
  show ?thesis
  proof (cases "confidence candidate < leaf_confidence_threshold (thresholds e)")
    case True
    from low [OF True] d show ?thesis by simp
  next
    case conf: False
    show ?thesis
    proof (cases "get_folder sub_result")
      case None
      with assms conf d show ?thesis by (simp add: match_leaf_def)
    next
      case (Some sf)
      obtain m sim s1 where fb: "find_best_match e s (path sf @ '' > '' @ la_label leaf) 3
          (Some (folder_id sf)) (leaf_threshold (thresholds e)) = ((m, sim), s1)"
        by (metis surj_pair)
      note fr = find_best_match_frame [OF fb]
      from assms conf Some fb fr d show ?thesis
        by (cases m) (simp_all add: match_leaf_def Let_def)
    qed
  qed
qed


subsection \<open>Sample collaborators and candidates\<close>

definition sample_uuid4 :: "nat \<Rightarrow> string" where
  "sample_uuid4 n = ''uuid'' @ replicate n CHR ''+''"

text \<open>An embedding service that is not reachable (no API key, say).\<close>

definition offline_env :: env where
  "offline_env =
     \<lparr> embed_backend = (\<lambda>text. None), max_text_length = 8000,
       uuid4 = sample_uuid4, thresholds = default_thresholds \<rparr>"

definition astronomy :: "label_with_aliases option \<Rightarrow> real \<Rightarrow> taxonomy_candidate" where
  "astronomy leaf conf =
     \<lparr> domain = \<lparr> la_label = ''Astronomy'', la_aliases = [], la_optional = False \<rparr>,
       subdomain = \<lparr> la_label = ''Stars'', la_aliases = [], la_optional = False \<rparr>,
       leaf_topic = leaf, tags = [], confidence = conf, rationale = [] \<rparr>"

definition dwarfs :: "bool \<Rightarrow> label_with_aliases" where
  "dwarfs opt = \<lparr> la_label = ''Dwarfs'', la_aliases = [], la_optional = opt \<rparr>"

definition skipped_subdomain :: match_result where
  "skipped_subdomain =
     \<lparr> level = SUBDOMAIN, action = SKIP, matched_folder = None, new_folder = None,
       similarity_score = 0, label_used = ''Stars'' \<rparr>"

theorem match_leaf_optional_witness:
  "match_leaf offline_env empty_matcher (astronomy (Some (dwarfs True)) (60 / 100))
       skipped_subdomain
     = (Some \<lparr> level = LEAF, action = SKIP, matched_folder = None, new_folder = None,
               similarity_score = 0, label_used = ''Dwarfs'' \<rparr>, empty_matcher)"
proof -
  have l: "leaf_topic (astronomy (Some (dwarfs True)) (60 / 100)) = Some (dwarfs True)"
    by (simp add: astronomy_def)
  have o: "la_optional (dwarfs True)" by (simp add: dwarfs_def)
  have c: "confidence (astronomy (Some (dwarfs True)) (60 / 100))
      < leaf_confidence_threshold (thresholds offline_env)"
    by (simp add: astronomy_def offline_env_def default_thresholds_def)
  from match_leaf_optional [OF l o, of offline_env empty_matcher skipped_subdomain] c
  show ?thesis by (simp add: dwarfs_def)
qed

subsection \<open>Embedding failures\<close>

text \<open>What the orchestrator reads off a classification
  (\<open>AutoFolderOutput.from_hierarchical_match\<close>): the final path, the paths of the
  folders created and the paths of the folders reused.\<close>

definition output_of ::
  "error + hierarchical_match \<times> matcher \<Rightarrow> error + string \<times> string list \<times> string list" where
  "output_of r =
     (case r of
        Inl err \<Rightarrow> Inl err
      | Inr (m, s) \<Rightarrow>
          Inr (get_final_path m, map path (get_created_folders m),
               map path (get_reused_folders m)))"

lemma find_best_match_embedding_failure:
  "generate_embedding e text = Inl err \<Longrightarrow>
     find_best_match e s text d parent thr = ((None, 0), s)"
  by (simp add: find_best_match_def)

lemma create_folder_shape:
  "create_folder e s lbl d parent als = (f, s') \<Longrightarrow>
     label f = lbl \<and> depth f = d
     \<and> path f = (case parent of Some par \<Rightarrow> path par @ ''/'' @ lbl | None \<Rightarrow> lbl)
     \<and> parent_id f = map_option folder_id parent
     \<and> folder_id f = uuid4 e (uuid_count s) \<and> aliases f = als \<and> \<not> is_seed f
     \<and> folder_cache s' (folder_id f) = Some f
     \<and> (d \<le> 3 \<longrightarrow> folders_by_depth s' d = folders_by_depth s d @ [f])"
  by (auto simp: create_folder_def Let_def split: sum.splits)

lemma match_domain_cases:
  "(\<exists>f sim s'. match_domain e s c
       = (\<lparr> level = DOMAIN, action = REUSE_EXISTING, matched_folder = Some f,
            new_folder = None, similarity_score = sim, label_used = label f \<rparr>, s')
       \<and> find_best_match e s (la_label (domain c)) 1 None (domain_threshold (thresholds e))
           = ((Some f, sim), s'))
   \<or> (\<exists>f sim s1 s'. match_domain e s c
       = (\<lparr> level = DOMAIN, action = CREATE_NEW, matched_folder = None,
            new_folder = Some f, similarity_score = 0, label_used = label f \<rparr>, s')
       \<and> find_best_match e s (la_label (domain c)) 1 None (domain_threshold (thresholds e))
           = ((None, sim), s1)
       \<and> create_folder e s1 (la_label (domain c)) 1 None (la_aliases (domain c)) = (f, s'))"
proof -
  obtain m sim s1 where fb: "find_best_match e s (la_label (domain c)) 1 None
      (domain_threshold (thresholds e)) = ((m, sim), s1)"
    by (metis surj_pair)
  show ?thesis
  proof (cases m)
    case None
    obtain f s' where cf: "create_folder e s1 (la_label (domain c)) 1 None
        (la_aliases (domain c)) = (f, s')"
      by (metis surj_pair)
    with fb None show ?thesis by (simp add: match_domain_def Let_def)
  next
    case (Some f)
    with fb show ?thesis by (simp add: match_domain_def Let_def)
  qed
qed

lemma match_domain_has_folder: "get_folder (fst (match_domain e s c)) \<noteq> None"
  using match_domain_cases [of e s c] by (auto simp: get_folder_def)

lemma match_subdomain_total:
  "get_folder dr \<noteq> None \<Longrightarrow> \<exists>r s'. match_subdomain e s c dr = Inr (r, s')"
  by (auto simp: match_subdomain_def Let_def split: option.splits prod.splits)

lemma match_total: "\<exists>m s'. match e s c = Inr (m, s')"
proof -
  obtain dr s1 where d: "match_domain e s c = (dr, s1)" by (metis surj_pair)
  with match_domain_has_folder [of e s c] have "get_folder dr \<noteq> None" by simp
  then obtain sr s2 where sd: "match_subdomain e s1 c dr = Inr (sr, s2)"
    using match_subdomain_total by blast
  obtain lr s3 where l: "match_leaf e s2 c sr = (lr, s3)" by (metis surj_pair)
  from d sd l show ?thesis by (simp add: match_def)
qed

text \<open>
  Claim C1, as the code has it.  When the embedding of a search text fails, the
  search reports no match and nothing is aborted.  At the domain level the matcher
  then creates a depth-1 folder (\<open>CREATE_NEW\<close>), at the subdomain level a child of
  the domain folder (\<open>ATTACH_AS_CHILD\<close>).  At the leaf level an optional leaf is
  skipped, and a leaf that is not optional is created as a child below the maximal
  depth.  \<open>match\<close> returns a result for every candidate in every state.
\<close>

theorem embedding_failure_degrades:
  "(generate_embedding e text = Inl err \<longrightarrow>
      find_best_match e s text d parent thr = ((None, 0), s))
   \<and> (generate_embedding e (la_label (domain c)) = Inl err \<longrightarrow>
      (\<exists>f s'. match_domain e s c
          = (\<lparr> level = DOMAIN, action = CREATE_NEW, matched_folder = None,
               new_folder = Some f, similarity_score = 0,
               label_used = la_label (domain c) \<rparr>, s')
        \<and> depth f = 1 \<and> path f = la_label (domain c) \<and> parent_id f = None
        \<and> folders_by_depth s' 1 = folders_by_depth s 1 @ [f]))
   \<and> (get_folder dr = Some df \<longrightarrow>
      generate_embedding e (label df @ '' > '' @ la_label (subdomain c)) = Inl err \<longrightarrow>
      (\<exists>f s'. match_subdomain e s c dr
          = Inr (\<lparr> level = SUBDOMAIN, action = ATTACH_AS_CHILD, matched_folder = None,
                   new_folder = Some f, similarity_score = 0,
                   label_used = la_label (subdomain c) \<rparr>, s')
        \<and> depth f = 2 \<and> path f = path df @ ''/'' @ la_label (subdomain c)
        \<and> parent_id f = Some (folder_id df)
        \<and> folders_by_depth s' 2 = folders_by_depth s 2 @ [f]))
   \<and> (leaf_topic c = Some leaf \<longrightarrow> get_folder sr = Some sf \<longrightarrow>
      generate_embedding e (path sf @ '' > '' @ la_label leaf) = Inl err \<longrightarrow>
      (la_optional leaf \<longrightarrow>
         match_leaf e s c sr
           = (Some \<lparr> level = LEAF, action = SKIP, matched_folder = None,
                     new_folder = None, similarity_score = 0,
                     label_used = la_label leaf \<rparr>, s))
      \<and> (\<not> la_optional leaf \<longrightarrow> int (depth sf) < max_depth (thresholds e) \<longrightarrow>
         (\<exists>f s'. match_leaf e s c sr
           = (Some \<lparr> level = LEAF, action = ATTACH_AS_CHILD, matched_folder = None,
                     new_folder = Some f, similarity_score = 0,
                     label_used = la_label leaf \<rparr>, s')
           \<and> depth f = 3 \<and> path f = path sf @ ''/'' @ la_label leaf
           \<and> folders_by_depth s' 3 = folders_by_depth s 3 @ [f])))
   \<and> (\<exists>m s'. match e s c = Inr (m, s'))"
proof (intro conjI impI)
  show "find_best_match e s text d parent thr = ((None, 0), s)"
    if "generate_embedding e text = Inl err"
    using that by (rule find_best_match_embedding_failure)
next
  assume f: "generate_embedding e (la_label (domain c)) = Inl err"
  obtain f s' where cf: "create_folder e s (la_label (domain c)) 1 None
      (la_aliases (domain c)) = (f, s')"
    by (metis surj_pair)
  from create_folder_shape [OF cf] cf f
  show "\<exists>f s'. match_domain e s c
          = (\<lparr> level = DOMAIN, action = CREATE_NEW, matched_folder = None,
               new_folder = Some f, similarity_score = 0,
               label_used = la_label (domain c) \<rparr>, s')
        \<and> depth f = 1 \<and> path f = la_label (domain c) \<and> parent_id f = None
        \<and> folders_by_depth s' 1 = folders_by_depth s 1 @ [f]"
    by (simp add: match_domain_def Let_def find_best_match_embedding_failure)
next
  assume df: "get_folder dr = Some df"
    and f: "generate_embedding e (label df @ '' > '' @ la_label (subdomain c)) = Inl err"
  obtain p s1 where pr: "find_best_match e s (la_label (subdomain c)) 2 None
      (subdomain_threshold (thresholds e)) = (p, s1)"
    by (metis surj_pair)
  obtain f s' where cf: "create_folder e s1 (la_label (subdomain c)) 2 (Some df)
      (la_aliases (subdomain c)) = (f, s')"
    by (metis surj_pair)
  from find_best_match_frame [of e s _ 2 None _ p s1] pr
  have fr: "folders_by_depth s1 = folders_by_depth s" by simp
  from create_folder_shape [OF cf] cf f df pr fr
  show "\<exists>f s'. match_subdomain e s c dr
          = Inr (\<lparr> level = SUBDOMAIN, action = ATTACH_AS_CHILD, matched_folder = None,
                   new_folder = Some f, similarity_score = 0,
                   label_used = la_label (subdomain c) \<rparr>, s')
        \<and> depth f = 2 \<and> path f = path df @ ''/'' @ la_label (subdomain c)
        \<and> parent_id f = Some (folder_id df)
        \<and> folders_by_depth s' 2 = folders_by_depth s 2 @ [f]"
    by (simp add: match_subdomain_def Let_def find_best_match_embedding_failure)
next
  assume l: "leaf_topic c = Some leaf" and sf: "get_folder sr = Some sf"
    and f: "generate_embedding e (path sf @ '' > '' @ la_label leaf) = Inl err"
  show "match_leaf e s c sr
           = (Some \<lparr> level = LEAF, action = SKIP, matched_folder = None,
                     new_folder = None, similarity_score = 0,
                     label_used = la_label leaf \<rparr>, s)"
    if "la_optional leaf"
    using that l sf f
    by (simp add: match_leaf_def Let_def find_best_match_embedding_failure)
  show "\<exists>f s'. match_leaf e s c sr
           = (Some \<lparr> level = LEAF, action = ATTACH_AS_CHILD, matched_folder = None,
                     new_folder = Some f, similarity_score = 0,
                     label_used = la_label leaf \<rparr>, s')
           \<and> depth f = 3 \<and> path f = path sf @ ''/'' @ la_label leaf
           \<and> folders_by_depth s' 3 = folders_by_depth s 3 @ [f]"
    if no: "\<not> la_optional leaf" and dp: "int (depth sf) < max_depth (thresholds e)"
  proof -
    obtain f s' where cf: "create_folder e s (la_label leaf) 3 (Some sf)
        (la_aliases leaf) = (f, s')"
      by (metis surj_pair)
    from create_folder_shape [OF cf] cf no dp l sf f show ?thesis
      by (simp add: match_leaf_def Let_def find_best_match_embedding_failure)
  qed
next
  show "\<exists>m s'. match e s c = Inr (m, s')" by (rule match_total)
qed


lemmas matcher_eval =
  match_def match_domain_def match_subdomain_def match_leaf_def find_best_match_def
  create_folder_def generate_embedding_def replace_slash_def get_folder_def
  get_final_path_def get_created_folders_def get_reused_folders_def output_of_def
  strip_def is_space_def ascii_whitespace_def py_take_def Let_def

lemma offline_generate_embedding:
  "generate_embedding offline_env ''Astronomy'' = Inl EmbeddingUnavailable"
  by (simp add: offline_env_def generate_embedding_def strip_def is_space_def
      ascii_whitespace_def)

theorem embedding_failure_counterexample:
  "generate_embedding offline_env (la_label (domain (astronomy None (9 / 10))))
     = Inl EmbeddingUnavailable
   \<and> output_of (match offline_env empty_matcher (astronomy None (9 / 10)))
     = Inr (''Astronomy/Stars'', [''Astronomy'', ''Astronomy/Stars''], [])"
  by (simp add: offline_env_def astronomy_def empty_matcher_def sample_uuid4_def
      matcher_eval)

theorem embedding_failure_degrades_witness:
  "generate_embedding offline_env ''Astronomy'' = Inl EmbeddingUnavailable
   \<and> action (fst (match_domain offline_env empty_matcher (astronomy None (9 / 10))))
       = CREATE_NEW
   \<and> label_used (fst (match_domain offline_env empty_matcher (astronomy None (9 / 10))))
       = ''Astronomy''"
proof -
  have f: "generate_embedding offline_env (la_label (domain (astronomy None (9 / 10))))
      = Inl EmbeddingUnavailable"
    by (simp add: astronomy_def offline_generate_embedding)
  from embedding_failure_degrades
    [of offline_env "la_label (domain (astronomy None (9 / 10)))" EmbeddingUnavailable
        empty_matcher 1 None 0 "astronomy None (9 / 10)"] f
  obtain g s' where m: "match_domain offline_env empty_matcher (astronomy None (9 / 10))
          = (\<lparr> level = DOMAIN, action = CREATE_NEW, matched_folder = None,
               new_folder = Some g, similarity_score = 0,
               label_used = la_label (domain (astronomy None (9 / 10))) \<rparr>, s')"
    by blast
  have l: "la_label (domain (astronomy None (9 / 10))) = ''Astronomy''"
    by (simp add: astronomy_def)
  from m l offline_generate_embedding show ?thesis by simp
qed

subsection \<open>The walk over the sorted candidates\<close>

text \<open>The path of the folder a candidate resolves to: that of the cached folder with
  the metadata's folder id, else the metadata's own non-empty path; \<open>None\<close> when the
  candidate has neither, in which case the loop passes over it.\<close>

definition resolved_path :: "matcher \<Rightarrow> metadata \<Rightarrow> string option" where
  "resolved_path s meta =
     (case (case meta_str meta ''folder_id'' of Some i \<Rightarrow> folder_cache s i | None \<Rightarrow> None) of
        Some folder \<Rightarrow> Some (path folder)
      | None \<Rightarrow>
          (case meta_str meta ''path'' of
             Some p \<Rightarrow> if p \<noteq> [] then Some p else None
           | None \<Rightarrow> None))"

text \<open>A candidate the loop stops at: its score is not below the threshold, it
  resolves to a folder, and the sanity check passes on that folder's path.\<close>

definition accepted :: "env \<Rightarrow> matcher \<Rightarrow> string \<Rightarrow> real \<Rightarrow> match_candidate \<Rightarrow> bool" where
  "accepted e s search_text threshold c =
     (\<not> score_of c < threshold
      \<and> (case resolved_path s (snd (snd c)) of
           None \<Rightarrow> False
         | Some p \<Rightarrow> sanity_check (thresholds e) search_text p (score_of c)))"

lemma resolved_path_cong:
  "folder_cache s' = folder_cache s \<Longrightarrow> resolved_path s' meta = resolved_path s meta"
  by (auto simp: resolved_path_def split: option.splits)

lemma resolve_folder_path:
  "resolve_folder e s d emb_id meta = (r, s') \<Longrightarrow>
     map_option path r = resolved_path s meta
     \<and> (\<forall>i g. meta_str meta ''folder_id'' = Some i \<longrightarrow> folder_cache s i = Some g
          \<longrightarrow> r = Some g)"
  by (auto simp: resolve_folder_def resolved_path_def Let_def
      split: option.splits if_splits prod.splits)

lemma walk_first_accepted_aux:
  assumes "folder_cache s = folder_cache s0"
  shows "(find (accepted e s0 text thr) cs = None \<longrightarrow> fst (walk e s text d thr cs) = (None, 0))
   \<and> (\<forall>c. find (accepted e s0 text thr) cs = Some c \<longrightarrow>
        (\<exists>f. fst (walk e s text d thr cs) = (Some f, score_of c)
           \<and> resolved_path s0 (snd (snd c)) = Some (path f)
           \<and> (\<forall>i g. meta_str (snd (snd c)) ''folder_id'' = Some i \<longrightarrow>
                 folder_cache s0 i = Some g \<longrightarrow> f = g)))"
  using assms
proof (induction cs arbitrary: s)
  case Nil
  show ?case by simp
next
  case (Cons c cs)
  obtain emb_id score meta where c: "c = (emb_id, score, meta)" by (cases c) auto
  have sc: "score_of c = score" and mc: "snd (snd c) = meta" by (simp_all add: c score_of_def)
  show ?case
  proof (cases "score < thr")
    case True
    then have na: "\<not> accepted e s0 text thr c" by (simp add: accepted_def sc)
    have w: "walk e s text d thr (c # cs) = walk e s text d thr cs"
      using True by (simp add: c)
    from Cons.IH [OF Cons.prems] na show ?thesis by (simp only: w find.simps if_False)
  next
    case ge: False
    obtain r s1 where rf: "resolve_folder e s d emb_id meta = (r, s1)" by (metis surj_pair)
    from resolve_folder_frame [OF rf] Cons.prems
    have cache: "folder_cache s1 = folder_cache s0" by simp
    from resolve_folder_path [OF rf] Cons.prems
    have rp: "map_option path r = resolved_path s0 meta"
      and rc: "\<forall>i g. meta_str meta ''folder_id'' = Some i \<longrightarrow> folder_cache s0 i = Some g
          \<longrightarrow> r = Some g"
      by (simp_all add: resolved_path_cong [of s s0])
    show ?thesis
    proof (cases r)
      case None
      with rp have "resolved_path s0 meta = None" by simp
      then have na: "\<not> accepted e s0 text thr c" by (simp add: accepted_def mc)
      have w: "walk e s text d thr (c # cs) = walk e s1 text d thr cs"
        using ge rf None by (simp add: c)
      from Cons.IH [OF cache] na show ?thesis by (simp only: w find.simps if_False)
    next
      case (Some f)
      with rp have p: "resolved_path s0 meta = Some (path f)" by simp
      show ?thesis
      proof (cases "sanity_check (thresholds e) text (path f) score")
        case True
        with ge p have acc: "accepted e s0 text thr c" by (simp add: accepted_def mc sc)
        have w: "walk e s text d thr (c # cs) = ((Some f, score), s1)"
          using ge rf Some True by (simp add: c)
        have "find (accepted e s0 text thr) (c # cs) = Some c" using acc by simp
        moreover have "\<exists>g. fst (walk e s text d thr (c # cs)) = (Some g, score_of c)
           \<and> resolved_path s0 (snd (snd c)) = Some (path g)
           \<and> (\<forall>i h. meta_str (snd (snd c)) ''folder_id'' = Some i \<longrightarrow>
                 folder_cache s0 i = Some h \<longrightarrow> g = h)"
          using w p rc Some by (auto simp: sc mc)
        ultimately show ?thesis by simp
      next
        case False
        with p have na: "\<not> accepted e s0 text thr c" by (simp add: accepted_def mc sc)
        have w: "walk e s text d thr (c # cs) = walk e s1 text d thr cs"
          using ge rf Some False by (simp add: c)
        from Cons.IH [OF cache] na show ?thesis by (simp only: w find.simps if_False)
      qed
    qed
  qed
qed

lemmas walk_first_accepted = walk_first_accepted_aux [OF refl]

lemma collect_candidates_sorted:
  "sorted_wrt (\<lambda>x y. score_of y \<le> score_of x) (collect_candidates s q d parent)"
  by (simp add: collect_candidates_def Let_def sort_by_score_desc_sorted)


text \<open>
  Claim C3.  The loop over the candidates stops at the first candidate that is not
  below the threshold, resolves to a folder and passes the sanity check on that
  folder's path; it returns that folder with the candidate's score, and no match
  when there is no such candidate.  \<open>_find_best_match\<close> runs the loop over the
  candidates sorted by descending score.  At the domain level, a best candidate
  whose score equals \<open>domain_threshold\<close> and that passes the sanity check is matched
  (\<open>REUSE_EXISTING\<close>); when every candidate is strictly below the threshold, a new
  depth-1 folder is created (\<open>CREATE_NEW\<close>).
\<close>

theorem find_best_match_threshold:
  "(find (accepted e s text thr) cs = None \<longrightarrow> fst (walk e s text d thr cs) = (None, 0))
   \<and> (\<forall>x. find (accepted e s text thr) cs = Some x \<longrightarrow>
        (\<exists>f. fst (walk e s text d thr cs) = (Some f, score_of x)
           \<and> resolved_path s (snd (snd x)) = Some (path f)))
   \<and> (\<forall>q. generate_embedding e text = Inr q \<longrightarrow>
        find_best_match e s text d parent thr
          = walk e s text d thr (collect_candidates s q d parent)
        \<and> sorted_wrt (\<lambda>x y. score_of y \<le> score_of x) (collect_candidates s q d parent))
   \<and> (\<forall>q x rest p.
        generate_embedding e (la_label (domain c)) = Inr q \<longrightarrow>
        collect_candidates s q 1 None = x # rest \<longrightarrow>
        score_of x = domain_threshold (thresholds e) \<longrightarrow>
        resolved_path s (snd (snd x)) = Some p \<longrightarrow>
        sanity_check (thresholds e) (la_label (domain c)) p (score_of x) \<longrightarrow>
        (\<exists>f. matched_folder (fst (match_domain e s c)) = Some f \<and> path f = p)
        \<and> action (fst (match_domain e s c)) = REUSE_EXISTING
        \<and> similarity_score (fst (match_domain e s c)) = domain_threshold (thresholds e))
   \<and> (\<forall>q. generate_embedding e (la_label (domain c)) = Inr q \<longrightarrow>
        (\<forall>x \<in> set (collect_candidates s q 1 None).
            score_of x < domain_threshold (thresholds e)) \<longrightarrow>
        (\<exists>f s'. match_domain e s c
            = (\<lparr> level = DOMAIN, action = CREATE_NEW, matched_folder = None,
                 new_folder = Some f, similarity_score = 0,
                 label_used = la_label (domain c) \<rparr>, s')
          \<and> depth f = 1 \<and> path f = la_label (domain c) \<and> parent_id f = None
          \<and> folders_by_depth s' 1 = folders_by_depth s 1 @ [f]))"
proof (intro conjI allI impI)
  show "fst (walk e s text d thr cs) = (None, 0)"
    if "find (accepted e s text thr) cs = None"
    using that walk_first_accepted [of e s _ thr cs d] by blast
  show "\<exists>f. fst (walk e s text d thr cs) = (Some f, score_of x)
           \<and> resolved_path s (snd (snd x)) = Some (path f)"
    if "find (accepted e s text thr) cs = Some x" for x
    using that walk_first_accepted [of e s _ thr cs d] by blast
  show "find_best_match e s text d parent thr
          = walk e s text d thr (collect_candidates s q d parent)"
    if "generate_embedding e text = Inr q" for q
    using that by (simp add: find_best_match_def)
  show "sorted_wrt (\<lambda>x y. score_of y \<le> score_of x) (collect_candidates s q d parent)" for q
    by (rule collect_candidates_sorted)
next
  fix q x rest p
  assume emb: "generate_embedding e (la_label (domain c)) = Inr q"
    and cs: "collect_candidates s q 1 None = x # rest"
    and sc: "score_of x = domain_threshold (thresholds e)"
    and rp: "resolved_path s (snd (snd x)) = Some p"
    and sane: "sanity_check (thresholds e) (la_label (domain c)) p (score_of x)"
  let ?text = "la_label (domain c)" and ?thr = "domain_threshold (thresholds e)"
  have "accepted e s ?text ?thr x" using sc rp sane by (simp add: accepted_def)
  then have "find (accepted e s ?text ?thr) (x # rest) = Some x" by simp
  with walk_first_accepted [of e s ?text ?thr "x # rest" 1]
  have "\<exists>f. fst (walk e s ?text 1 ?thr (x # rest)) = (Some f, score_of x)
      \<and> resolved_path s (snd (snd x)) = Some (path f)"
    by blast
  then obtain f where w: "fst (walk e s ?text 1 ?thr (x # rest)) = (Some f, score_of x)"
    and "resolved_path s (snd (snd x)) = Some (path f)"
    by blast
  with rp have pf: "path f = p" by simp
  obtain s1 where fb: "find_best_match e s ?text 1 None ?thr = ((Some f, score_of x), s1)"
    using w emb cs by (cases "walk e s ?text 1 ?thr (x # rest)") (simp add: find_best_match_def)
  then have md: "match_domain e s c
      = (\<lparr> level = DOMAIN, action = REUSE_EXISTING, matched_folder = Some f,
           new_folder = None, similarity_score = score_of x, label_used = label f \<rparr>, s1)"
    by (simp add: match_domain_def Let_def)
  show "\<exists>f. matched_folder (fst (match_domain e s c)) = Some f \<and> path f = p"
    using md pf by simp
  show "action (fst (match_domain e s c)) = REUSE_EXISTING" using md by simp
  show "similarity_score (fst (match_domain e s c)) = domain_threshold (thresholds e)"
    using md sc by simp
next
  fix q
  assume emb: "generate_embedding e (la_label (domain c)) = Inr q"
    and below: "\<forall>x \<in> set (collect_candidates s q 1 None).
            score_of x < domain_threshold (thresholds e)"
  let ?text = "la_label (domain c)" and ?thr = "domain_threshold (thresholds e)"
  let ?cs = "collect_candidates s q 1 None"
  from below have "find (accepted e s ?text ?thr) ?cs = None"
    by (auto simp: find_None_iff accepted_def)
  with walk_first_accepted [of e s ?text ?thr ?cs 1]
  have "fst (walk e s ?text 1 ?thr ?cs) = (None, 0)" by blast
  then obtain s1 where fb: "find_best_match e s ?text 1 None ?thr = ((None, 0), s1)"
    using emb by (cases "walk e s ?text 1 ?thr ?cs") (simp add: find_best_match_def)
  from find_best_match_frame [OF fb] have fr: "folders_by_depth s1 = folders_by_depth s"
    by simp
  obtain f s' where cf: "create_folder e s1 ?text 1 None (la_aliases (domain c)) = (f, s')"
    by (metis surj_pair)
  from create_folder_shape [OF cf] cf fb fr
  show "\<exists>f s'. match_domain e s c
            = (\<lparr> level = DOMAIN, action = CREATE_NEW, matched_folder = None,
                 new_folder = Some f, similarity_score = 0,
                 label_used = la_label (domain c) \<rparr>, s')
          \<and> depth f = 1 \<and> path f = la_label (domain c) \<and> parent_id f = None
          \<and> folders_by_depth s' 1 = folders_by_depth s 1 @ [f]"
    by (simp add: match_domain_def Let_def)
qed


subsection \<open>A store with one top-level folder\<close>

definition space_folder :: folder_entity where
  "space_folder =
     \<lparr> folder_id = ''f1'', path = ''Space'', label = ''Space'', depth = 1,
       parent_id = None, aliases = [], embedding_id = Some ''folder_f1'',
       embedding = Some [41, 27, 9, 3], item_count = 0, is_seed = False \<rparr>"

definition space_meta :: metadata where
  "space_meta =
     [(''type'', MStr ''folder''), (''folder_id'', MStr ''f1''), (''path'', MStr ''Space''),
      (''depth'', MInt 1), (''parent_id'', MNone), (''is_seed'', MBool False)]"

definition space_matcher :: matcher where
  "space_matcher =
     \<lparr> vectors = [(''folder_f1'', [41, 27, 9, 3], space_meta)],
       folder_cache = [''f1'' \<mapsto> space_folder],
       folders_by_depth = (\<lambda>d. [])(1 := [space_folder]),
       uuid_count = 0 \<rparr>"

text \<open>An embedding service that knows two texts: \<open>Cosmos\<close> lies at similarity
  41/50 = 0.82 from the folder above, \<open>Void\<close> at 27/50 = 0.54.\<close>

definition cosmos_env :: env where
  "cosmos_env =
     \<lparr> embed_backend = (\<lambda>text. if text = ''Cosmos'' then Some [1, 0, 0, 0]
                                else if text = ''Void'' then Some [0, 1, 0, 0] else None),
       max_text_length = 8000, uuid4 = sample_uuid4, thresholds = default_thresholds \<rparr>"

definition topic :: "string \<Rightarrow> taxonomy_candidate" where
  "topic d =
     \<lparr> domain = \<lparr> la_label = d, la_aliases = [], la_optional = False \<rparr>,
       subdomain = \<lparr> la_label = ''General'', la_aliases = [], la_optional = False \<rparr>,
       leaf_topic = None, tags = [], confidence = 9 / 10, rationale = [] \<rparr>"

lemma norm_vec_space: "norm_vec [41, 27, 9, 3] = 50"
proof -
  have "sqrt 2500 = 50" by (rule real_sqrt_unique) simp_all
  then show ?thesis by (simp add: norm_vec_def)
qed

lemma cosine_cosmos_space: "cosine_similarity [1, 0, 0, 0] [41, 27, 9, 3] = Inr (41 / 50)"
  by (simp add: cosine_similarity_def Let_def norm_vec_space dot_product_def)
     (simp add: norm_vec_def)

lemma cosine_void_space: "cosine_similarity [0, 1, 0, 0] [41, 27, 9, 3] = Inr (27 / 50)"
  by (simp add: cosine_similarity_def Let_def norm_vec_space dot_product_def)
     (simp add: norm_vec_def)

lemma space_candidates:
  "collect_candidates space_matcher [1, 0, 0, 0] 1 None = [(Some ''folder_f1'', 41 / 50, space_meta)]"
  "collect_candidates space_matcher [0, 1, 0, 0] 1 None = [(Some ''folder_f1'', 27 / 50, space_meta)]"
  by (simp_all add: collect_candidates_def space_matcher_def space_meta_def space_folder_def
      build_filter_def truthy_def search_def filter_matches_def mget_def
      cosine_cosmos_space cosine_void_space sort_by_score_desc_def score_of_def py_take_def
      Let_def)

lemma cosmos_embeddings:
  "generate_embedding cosmos_env ''Cosmos'' = Inr [1, 0, 0, 0]"
  "generate_embedding cosmos_env ''Void'' = Inr [0, 1, 0, 0]"
  by (simp_all add: cosmos_env_def generate_embedding_def strip_def is_space_def
      ascii_whitespace_def)

theorem find_best_match_threshold_witness:
  "domain_threshold (thresholds cosmos_env) = 82 / 100
   \<and> collect_candidates space_matcher [1, 0, 0, 0] 1 None
       = [(Some ''folder_f1'', 82 / 100, space_meta)]
   \<and> action (fst (match_domain cosmos_env space_matcher (topic ''Cosmos''))) = REUSE_EXISTING
   \<and> similarity_score (fst (match_domain cosmos_env space_matcher (topic ''Cosmos''))) = 82 / 100
   \<and> collect_candidates space_matcher [0, 1, 0, 0] 1 None
       = [(Some ''folder_f1'', 54 / 100, space_meta)]
   \<and> action (fst (match_domain cosmos_env space_matcher (topic ''Void''))) = CREATE_NEW"
proof -
  note t = find_best_match_threshold [of cosmos_env space_matcher _ _ _ _ _ "topic ''Cosmos''"]
  note u = find_best_match_threshold [of cosmos_env space_matcher _ _ _ _ _ "topic ''Void''"]
  have thr: "domain_threshold (thresholds cosmos_env) = 82 / 100"
    by (simp add: cosmos_env_def default_thresholds_def)
  have e1: "generate_embedding cosmos_env (la_label (domain (topic ''Cosmos''))) = Inr [1, 0, 0, 0]"
    and e2: "generate_embedding cosmos_env (la_label (domain (topic ''Void''))) = Inr [0, 1, 0, 0]"
    by (simp_all add: topic_def cosmos_embeddings)
  let ?x = "(Some ''folder_f1'', 41 / 50 :: real, space_meta)"
  have sc: "score_of ?x = domain_threshold (thresholds cosmos_env)"
    by (simp add: score_of_def thr)
  have rp: "resolved_path space_matcher (snd (snd ?x)) = Some ''Space''"
    by (simp add: resolved_path_def meta_str_def mget_def space_meta_def space_matcher_def
        space_folder_def)
  have "\<not> (95 / 100 < score_of ?x)" "\<not> (85 / 100 < score_of ?x)"
    by (simp_all add: score_of_def)
  moreover have "\<not> list_ex (\<lambda>pair.
      (contains (lower ''Cosmos'') (fst pair) \<and> contains (lower ''Space'') (snd pair))
    \<or> (contains (lower ''Cosmos'') (snd pair) \<and> contains (lower ''Space'') (fst pair)))
      false_positive_pairs"
    by code_simp
  ultimately have sane: "sanity_check (thresholds cosmos_env)
      (la_label (domain (topic ''Cosmos''))) ''Space'' (score_of ?x)"
    by (simp add: sanity_check_def Let_def topic_def)
  from t e1 space_candidates(1) sc rp sane
  have r: "action (fst (match_domain cosmos_env space_matcher (topic ''Cosmos''))) = REUSE_EXISTING"
    "similarity_score (fst (match_domain cosmos_env space_matcher (topic ''Cosmos'')))
      = domain_threshold (thresholds cosmos_env)"
    by blast+
  have below: "\<forall>x \<in> set (collect_candidates space_matcher [0, 1, 0, 0] 1 None).
      score_of x < domain_threshold (thresholds cosmos_env)"
    unfolding space_candidates(2) by (simp add: score_of_def thr)
  from u e2 below
  have "\<exists>f s'. match_domain cosmos_env space_matcher (topic ''Void'')
            = (\<lparr> level = DOMAIN, action = CREATE_NEW, matched_folder = None,
                 new_folder = Some f, similarity_score = 0,
                 label_used = la_label (domain (topic ''Void'')) \<rparr>, s')"
    by blast
  then have c: "action (fst (match_domain cosmos_env space_matcher (topic ''Void''))) = CREATE_NEW"
    by auto
  have n: "(82 / 100 :: real) = 41 / 50" "(54 / 100 :: real) = 27 / 50" by simp_all
  from r c thr space_candidates show ?thesis unfolding n by simp
qed

section \<open>Seed initialisation (\<open>FolderMatcher.initialize_seed_folders\<close>)\<close>








subsection \<open>Paths and depths of created folders\<close>

















subsection \<open>Sample folders\<close>







section \<open>Matching the same candidate twice\<close>

subsection \<open>Sorting and scanning\<close>





lemma sort_by_score_desc_Nil [simp]: "sort_by_score_desc [] = []"
  by (simp add: sort_by_score_desc_def)







subsection \<open>Consistent states\<close>









subsection \<open>The candidates of a consistent state\<close>

















subsection \<open>What a creation does to a consistent state\<close>








subsection \<open>Additions at another depth\<close>










subsection \<open>Searching for a folder just created\<close>












subsection \<open>The three levels after a first match\<close>






subsection \<open>Idempotence\<close>












subsection \<open>The leaf level\<close>

text \<open>At the leaf level the search text is the subdomain folder's path followed by
  \<open>" > "\<close> and the leaf label (\<open>"Astronomy/Stars > Dwarfs"\<close>), whereas a leaf
  folder is registered under the embedding of its path with every \<open>/\<close> replaced
  (\<open>"Astronomy > Stars > Dwarfs"\<close>).  Whether a second match finds the leaf
  folder of the first therefore depends on how the embedding service relates the two
  texts.  With a service that separates them, the domain and the subdomain are
  reused and the leaf folder is created a second time.\<close>

definition literal_env :: env where
  "literal_env =
     \<lparr> embed_backend = (\<lambda>text. Some (if CHR ''/'' \<in> set text then [0, 1] else [1, 0])),
       max_text_length = 8000, uuid4 = sample_uuid4, thresholds = default_thresholds \<rparr>"

lemma cosine_similarity_units:
  "cosine_similarity [1, 0] [1, 0] = Inr 1"
  "cosine_similarity [0, 1] [1, 0] = Inr 0"
  "cosine_similarity [1, 0] [0, 1] = Inr 0"
  by (simp_all add: cosine_similarity_def dot_product_def norm_vec_def)

lemma leaf_created_twice:
  "\<exists>m1 s1 m2 s2.
     match literal_env empty_matcher (astronomy (Some (dwarfs False)) (9 / 10)) = Inr (m1, s1)
     \<and> match literal_env s1 (astronomy (Some (dwarfs False)) (9 / 10)) = Inr (m2, s2)
     \<and> action (domain_result m2) = REUSE_EXISTING
     \<and> action (subdomain_result m2) = REUSE_EXISTING
     \<and> get_final_path m1 = ''Astronomy/Stars/Dwarfs''
     \<and> get_final_path m2 = ''Astronomy/Stars/Dwarfs''
     \<and> map path (get_created_folders m2) = [''Astronomy/Stars/Dwarfs'']
     \<and> map path (folders_by_depth s2 3)
         = [''Astronomy/Stars/Dwarfs'', ''Astronomy/Stars/Dwarfs'']"
  by (simp add: literal_env_def astronomy_def dwarfs_def empty_matcher_def sample_uuid4_def
      matcher_eval collect_candidates_def search_def sort_by_score_desc_def
      filter_matches_def build_filter_def mget_def truthy_def cosine_similarity_units
      resolve_folder_def meta_str_def score_of_def sanity_check_def default_thresholds_def)

end
